theory Spec2Isabelle
  imports Main "HOL-Library.AList"
begin

section \<open>JavaScript values\<close>

text \<open>
  The services handle untyped JSON (\<open>Record<string, unknown>\<close>). A value is modelled by
  \<open>jsval\<close>. \<open>JNum n\<close> stands for the integer-valued number \<open>n\<close> (a number with a fraction
  has no value here); a string is a list of code units below 256; an object is the list
  of its own properties in the order in which they are enumerated, each key once.
\<close>

datatype jsval =
    JUndefined
  | JNull
  | JBool bool
  | JNum int
  | JStr string
  | JArr "jsval list"
  | JObj "(string \<times> jsval) list"

text \<open>ToBoolean, as used by \<open>if (x)\<close>, \<open>x && y\<close>, \<open>x || y\<close> and \<open>!x\<close>.\<close>

fun truthy :: "jsval \<Rightarrow> bool" where
  "truthy JUndefined = False"
| "truthy JNull = False"
| "truthy (JBool b) = b"
| "truthy (JNum n) = (n \<noteq> 0)"
| "truthy (JStr s) = (s \<noteq> [])"
| "truthy (JArr xs) = True"
| "truthy (JObj kvs) = True"

text \<open>\<open>a || b\<close>\<close>

definition js_or :: "jsval \<Rightarrow> jsval \<Rightarrow> jsval" where
  "js_or a b = (if truthy a then a else b)"

text \<open>
  Reading a property \<open>v.k\<close> or \<open>v?.k\<close> for the keys the services read (none of them is
  a built-in property of strings, numbers or arrays): the own property of an object,
  \<open>undefined\<close> everywhere else.
\<close>

fun getp :: "jsval \<Rightarrow> string \<Rightarrow> jsval" where
  "getp (JObj kvs) k = (case map_of kvs k of Some v \<Rightarrow> v | None \<Rightarrow> JUndefined)"
| "getp _ k = JUndefined"

text \<open>\<open>x && typeof x === 'object' && !Array.isArray(x)\<close>\<close>

fun is_record :: "jsval \<Rightarrow> bool" where
  "is_record (JObj kvs) = True"
| "is_record _ = False"

text \<open>\<open>typeof x === 'string'\<close>\<close>

fun is_string :: "jsval \<Rightarrow> bool" where
  "is_string (JStr s) = True"
| "is_string _ = False"

fun str_of :: "jsval \<Rightarrow> string" where
  "str_of (JStr s) = s"
| "str_of _ = []"

text \<open>A JavaScript \<open>Set\<close> iterates in insertion order; \<open>add\<close> of a member changes nothing.\<close>

definition Set_add :: "'a \<Rightarrow> 'a list \<Rightarrow> 'a list" where
  "Set_add x xs = (if x \<in> set xs then xs else xs @ [x])"

definition Set_delete :: "'a \<Rightarrow> 'a list \<Rightarrow> 'a list" where
  "Set_delete x xs = filter (\<lambda>y. y \<noteq> x) xs"

section \<open>The A2A service (a2aService.ts)\<close>

text \<open>A \<open>TOOL_CONFIRMATION_RESPONSE\<close> published on the host message bus.\<close>

record ToolConfirmationResponse =
  correlationId :: string
  confirmed :: bool

text \<open>
  The state the service reads and writes: the session identifier of the configuration,
  the two peer sets, which sockets are \<open>OPEN\<close>, and the effects in the order they happen:
  messages published on the bus, inputs emitted as \<open>AppEvent.InjectInput\<close>, frames sent to
  WebSocket peers and chunks written to SSE peers.
\<close>

record a2a_state =
  sessionId :: string
  clients :: "nat list"
  readyOpen :: "nat \<Rightarrow> bool"
  sseClients :: "nat list"
  published :: "ToolConfirmationResponse list"
  injected :: "string list"
  ws_sent :: "(nat \<times> string) list"
  sse_written :: "(nat \<times> string) list"

definition publish :: "ToolConfirmationResponse \<Rightarrow> a2a_state \<Rightarrow> a2a_state" where
  "publish r s = s\<lparr>published := published s @ [r]\<rparr>"

definition emitInjectInput :: "string \<Rightarrow> a2a_state \<Rightarrow> a2a_state" where
  "emitInjectInput input s = s\<lparr>injected := injected s @ [input]\<rparr>"

text \<open>The innermost block shared by both handlers (lines 153-165 and 384-396).\<close>

definition publishConfirmation :: "jsval \<Rightarrow> a2a_state \<Rightarrow> a2a_state" where
  "publishConfirmation dataObj s =
     (let toolCallId = getp dataObj ''tool_call_id'';
          selectedOptionId = getp dataObj ''selected_option_id''
      in if is_string toolCallId \<and> is_string selectedOptionId
         then publish \<lparr>correlationId = str_of toolCallId,
                        confirmed = (selectedOptionId = JStr ''proceed_once'')\<rparr> s
         else s)"

text \<open>\<open>handleClientMessage\<close>: a parsed WebSocket message that is a non-array object.\<close>

definition handleClientMessage :: "jsval \<Rightarrow> a2a_state \<Rightarrow> a2a_state" where
  "handleClientMessage message s =
     (if getp message ''method'' = JStr ''message/stream'' then
        let params = getp message ''params'' in
        if is_record params then
          let msg = getp params ''message'' in
          if is_record msg then
            let content = getp msg ''content'' in
            if is_record content then
              let data = getp content ''data'' in
              if is_record data then
                (if getp data ''kind'' = JStr ''TOOL_CALL_CONFIRMATION''
                 then publishConfirmation data s else s)
              else
                (let input = getp content ''text'' in
                 if is_string input then emitInjectInput (str_of input) s else s)
            else s
          else s
        else s
      else s)"

text \<open>
  What an HTTP handler does to its response: a JSON reply with a status, or the headers
  of an event stream that stays open. \<open>body.params\<close> on a body that is \<open>undefined\<close> or
  \<open>null\<close> throws after the stream has been opened.
\<close>

datatype http_result =
    JsonReply nat jsval
  | EventStream "(string \<times> string) list"
  | EventStreamThrew "(string \<times> string) list"

definition sse_headers :: "(string \<times> string) list" where
  "sse_headers = [(''Content-Type'', ''text/event-stream''),
                  (''Cache-Control'', ''no-cache''),
                  (''Connection'', ''keep-alive'')]"

text \<open>Lines 131-167: the body of an accepted stream request routed as a peer message.\<close>

definition routeStreamBody :: "jsval \<Rightarrow> a2a_state \<Rightarrow> a2a_state" where
  "routeStreamBody body s =
     (let params = getp body ''params'';
          message = getp params ''message'';
          content = getp message ''content'';
          input = getp content ''text''
      in if is_string input then emitInjectInput (str_of input) s
         else
           let data = getp content ''data'' in
           if is_record data \<and> getp data ''kind'' = JStr ''TOOL_CALL_CONFIRMATION''
           then publishConfirmation data s
           else s)"

text \<open>
  \<open>handleStreamRequest\<close>: \<open>taskId\<close> is \<open>req.params.taskId\<close> (\<open>None\<close> on the routes without
  the parameter), \<open>res\<close> the handle of the response object.
\<close>

definition handleStreamRequest ::
  "string option \<Rightarrow> jsval \<Rightarrow> nat \<Rightarrow> a2a_state \<Rightarrow> http_result \<times> a2a_state" where
  "handleStreamRequest taskId body res s =
     (if (case taskId of None \<Rightarrow> False | Some t \<Rightarrow> t \<noteq> [] \<and> t \<noteq> sessionId s)
      then (JsonReply 404 (JObj [(''error'', JStr ''Task not found'')]), s)
      else
        let s1 = s\<lparr>sseClients := Set_add res (sseClients s)\<rparr> in
        if body = JUndefined \<or> body = JNull then (EventStreamThrew sse_headers, s1)
        else (EventStream sse_headers, routeStreamBody body s1))"

text \<open>The \<open>close\<close> callback of the request.\<close>

definition onRequestClose :: "nat \<Rightarrow> a2a_state \<Rightarrow> a2a_state" where
  "onRequestClose res s = s\<lparr>sseClients := Set_delete res (sseClients s)\<rparr>"

text \<open>\<open>POST /tasks\<close>\<close>

definition postTasks :: "a2a_state \<Rightarrow> http_result" where
  "postTasks s = JsonReply 201 (JObj [(''id'', JStr (sessionId s))])"

text \<open>
  The \<open>message\<close> callback of a WebSocket: the argument is the outcome of
  \<open>JSON.parse(data.toString())\<close>, \<open>None\<close> when it throws.
\<close>

definition wsOnMessage :: "jsval option \<Rightarrow> a2a_state \<Rightarrow> a2a_state" where
  "wsOnMessage parsed s =
     (case parsed of
        None \<Rightarrow> s
      | Some message \<Rightarrow> if is_record message then handleClientMessage message s else s)"

text \<open>What reaches the service from its peers, one arrival at a time.\<close>

datatype inbound =
    WsFrame "jsval option"
  | StreamPost "string option" jsval nat

fun deliver :: "inbound \<Rightarrow> a2a_state \<Rightarrow> a2a_state" where
  "deliver (WsFrame parsed) s = wsOnMessage parsed s"
| "deliver (StreamPost taskId body res) s = snd (handleStreamRequest taskId body res s)"

text \<open>The service of session \<open>sid\<close> before any peer has connected.\<close>

definition a2a_init :: "string \<Rightarrow> a2a_state" where
  "a2a_init sid = \<lparr>sessionId = sid, clients = [], readyOpen = (\<lambda>c. False), sseClients = [],
                   published = [], injected = [], ws_sent = [], sse_written = []\<rparr>"

subsection \<open>Messages used in the statements\<close>

text \<open>\<open>params.message.content\<close> of a peer message.\<close>

definition contentOf :: "jsval \<Rightarrow> jsval" where
  "contentOf m = getp (getp (getp m ''params'') ''message'') ''content''"

text \<open>The confirmation message of the protocol documentation.\<close>

definition confirmationMessage :: "string \<Rightarrow> string \<Rightarrow> jsval" where
  "confirmationMessage t opt =
     JObj [(''jsonrpc'', JStr ''2.0''), (''method'', JStr ''message/stream''),
           (''params'', JObj [(''message'', JObj [(''content'', JObj [(''data'',
              JObj [(''kind'', JStr ''TOOL_CALL_CONFIRMATION''),
                    (''tool_call_id'', JStr t),
                    (''selected_option_id'', JStr opt)])])])])]"

text \<open>The prompt message of the protocol documentation.\<close>

definition textMessage :: "string \<Rightarrow> jsval" where
  "textMessage txt =
     JObj [(''jsonrpc'', JStr ''2.0''), (''method'', JStr ''message/stream''),
           (''params'', JObj [(''message'', JObj [(''content'', JObj [(''text'', JStr txt)])])])]"

text \<open>A message whose content has both a text and a confirmation.\<close>

definition textAndConfirmation :: "string \<Rightarrow> string \<Rightarrow> string \<Rightarrow> jsval" where
  "textAndConfirmation txt t opt =
     JObj [(''jsonrpc'', JStr ''2.0''), (''method'', JStr ''message/stream''),
           (''params'', JObj [(''message'', JObj [(''content'', JObj [(''text'', JStr txt),
              (''data'',
              JObj [(''kind'', JStr ''TOOL_CALL_CONFIRMATION''),
                    (''tool_call_id'', JStr t),
                    (''selected_option_id'', JStr opt)])])])])]"

text \<open>How a peer reaches the service: its socket, or a stream request with or without
  the task identifier in the path.\<close>

datatype via = ViaSocket | ViaStream nat | ViaTaskStream nat

fun arrival :: "string \<Rightarrow> via \<Rightarrow> jsval \<Rightarrow> inbound" where
  "arrival sid ViaSocket m = WsFrame (Some m)"
| "arrival sid (ViaStream res) m = StreamPost None m res"
| "arrival sid (ViaTaskStream res) m = StreamPost (Some sid) m res"

section \<open>JSON text\<close>

text \<open>
  \<open>JSON.stringify\<close> with one argument, on the values of \<open>jsval\<close>: no white space, the
  properties of an object in their order, a property whose value is \<open>undefined\<close> left
  out, \<open>undefined\<close> in an array written \<open>null\<close>. (At the top level \<open>JSON.stringify(undefined)\<close>
  is \<open>undefined\<close>, not a text; the services only serialise objects and arrays.)
\<close>

definition digit_char :: "nat \<Rightarrow> char" where
  "digit_char d = char_of (48 + d)"

fun show_nat :: "nat \<Rightarrow> string" where
  "show_nat n = (if n < 10 then [digit_char n] else show_nat (n div 10) @ [digit_char (n mod 10)])"

declare show_nat.simps [simp del]

definition show_int :: "int \<Rightarrow> string" where
  "show_int i = (if i < 0 then CHR ''-'' # show_nat (nat (- i)) else show_nat (nat i))"

definition hex_char :: "nat \<Rightarrow> char" where
  "hex_char d = (if d < 10 then char_of (48 + d) else char_of (87 + d))"

text \<open>QuoteJSONString: the two-character escapes, \<open>\u00XX\<close> for the other control
  characters, every other code unit as it is.\<close>

definition escape_char :: "char \<Rightarrow> string" where
  "escape_char c =
     (if c = CHR 0x08 then [CHR 0x5C, CHR ''b'']
      else if c = CHR 0x09 then [CHR 0x5C, CHR ''t'']
      else if c = CHR 0x0A then [CHR 0x5C, CHR ''n'']
      else if c = CHR 0x0C then [CHR 0x5C, CHR ''f'']
      else if c = CHR 0x0D then [CHR 0x5C, CHR ''r'']
      else if c = CHR 0x22 then [CHR 0x5C, CHR 0x22]
      else if c = CHR 0x5C then [CHR 0x5C, CHR 0x5C]
      else if (of_char c :: nat) < 32
        then [CHR 0x5C, CHR ''u'', CHR ''0'', CHR ''0'',
              hex_char (of_char c div 16), hex_char (of_char c mod 16)]
      else [c])"

definition quote :: "string \<Rightarrow> string" where
  "quote s = CHR 0x22 # concat (map escape_char s) @ [CHR 0x22]"

fun commas :: "string list \<Rightarrow> string" where
  "commas [] = []"
| "commas [x] = x"
| "commas (x # y # ys) = x @ CHR '','' # commas (y # ys)"

fun JSON_stringify :: "jsval \<Rightarrow> string" where
  "JSON_stringify JUndefined = ''null''"
| "JSON_stringify JNull = ''null''"
| "JSON_stringify (JBool b) = (if b then ''true'' else ''false'')"
| "JSON_stringify (JNum i) = show_int i"
| "JSON_stringify (JStr s) = quote s"
| "JSON_stringify (JArr xs) = CHR ''['' # commas (map JSON_stringify xs) @ '']''"
| "JSON_stringify (JObj kvs) =
     CHR ''{'' #
     commas (map (\<lambda>kv. quote (fst kv) @ CHR '':'' # JSON_stringify (snd kv))
                 (filter (\<lambda>kv. snd kv \<noteq> JUndefined) kvs)) @ ''}''"

text \<open>
  \<open>JSON.parse\<close> on the texts of \<open>jsval\<close>: white space between tokens, the escapes of
  strings, numbers without fraction or exponent, and a later duplicate of a key
  replacing the value of the earlier one. \<open>None\<close> is the \<open>SyntaxError\<close>. A text with a
  fraction, an exponent or a \<open>\uXXXX\<close> above 255 has no value in \<open>jsval\<close> and is \<open>None\<close> here
  too; the properties of an object stay in the order of the text. The recursion is
  bounded by the length of the text: every call consumes a character of it.
\<close>

definition is_ws :: "char \<Rightarrow> bool" where
  "is_ws c = (c = CHR 0x20 \<or> c = CHR 0x09 \<or> c = CHR 0x0A \<or> c = CHR 0x0D)"

definition skip_ws :: "string \<Rightarrow> string" where
  "skip_ws s = dropWhile is_ws s"

definition is_digit :: "char \<Rightarrow> bool" where
  "is_digit c = (48 \<le> (of_char c :: nat) \<and> (of_char c :: nat) \<le> 57)"

definition digit_val :: "char \<Rightarrow> nat" where
  "digit_val c = of_char c - 48"

definition hex_val :: "char \<Rightarrow> nat option" where
  "hex_val c =
     (let n = (of_char c :: nat) in
      if 48 \<le> n \<and> n \<le> 57 then Some (n - 48)
      else if 97 \<le> n \<and> n \<le> 102 then Some (n - 87)
      else if 65 \<le> n \<and> n \<le> 70 then Some (n - 55)
      else None)"

definition hex4 :: "char \<Rightarrow> char \<Rightarrow> char \<Rightarrow> char \<Rightarrow> nat option" where
  "hex4 a b c d =
     (case (hex_val a, hex_val b, hex_val c, hex_val d) of
        (Some w, Some x, Some y, Some z) \<Rightarrow> Some (((w * 16 + x) * 16 + y) * 16 + z)
      | _ \<Rightarrow> None)"

definition unescape :: "char \<Rightarrow> char option" where
  "unescape e =
     (if e = CHR 0x22 then Some (CHR 0x22)
      else if e = CHR 0x5C then Some (CHR 0x5C)
      else if e = CHR ''/'' then Some (CHR ''/'')
      else if e = CHR ''b'' then Some (CHR 0x08)
      else if e = CHR ''f'' then Some (CHR 0x0C)
      else if e = CHR ''n'' then Some (CHR 0x0A)
      else if e = CHR ''r'' then Some (CHR 0x0D)
      else if e = CHR ''t'' then Some (CHR 0x09)
      else None)"

definition cons_to :: "char \<Rightarrow> (string \<times> string) option \<Rightarrow> (string \<times> string) option" where
  "cons_to c r = (case r of None \<Rightarrow> None | Some (s, rest) \<Rightarrow> Some (c # s, rest))"

text \<open>The characters of a string after its opening quote, up to the closing quote.\<close>

fun parse_string_body :: "string \<Rightarrow> (string \<times> string) option" where
  "parse_string_body [] = None"
| "parse_string_body (c # cs) =
     (if c = CHR 0x22 then Some ([], cs)
      else if c = CHR 0x5C then
        (case cs of
           [] \<Rightarrow> None
         | e # r \<Rightarrow>
             if e = CHR ''u'' then
               (case r of
                  h1 # h2 # h3 # h4 # r' \<Rightarrow>
                    (case hex4 h1 h2 h3 h4 of
                       None \<Rightarrow> None
                     | Some n \<Rightarrow> if n < 256 then cons_to (char_of n) (parse_string_body r')
                                 else None)
                | _ \<Rightarrow> None)
             else
               (case unescape e of
                  None \<Rightarrow> None
                | Some d \<Rightarrow> cons_to d (parse_string_body r)))
      else if (of_char c :: nat) < 32 then None
      else cons_to c (parse_string_body cs))"

definition digits_val :: "string \<Rightarrow> nat" where
  "digits_val ds = foldl (\<lambda>a c. 10 * a + digit_val c) 0 ds"

text \<open>The digits of a number after its sign: no leading zero before another digit.\<close>

definition parse_digits :: "string \<Rightarrow> (nat \<times> string) option" where
  "parse_digits s =
     (let ds = takeWhile is_digit s; rest = dropWhile is_digit s in
      if ds = [] then None
      else if hd ds = CHR ''0'' \<and> tl ds \<noteq> [] then None
      else if rest \<noteq> [] \<and> (hd rest = CHR ''.'' \<or> hd rest = CHR ''e'' \<or> hd rest = CHR ''E'')
        then None
      else Some (digits_val ds, rest))"

definition parse_number :: "string \<Rightarrow> (jsval \<times> string) option" where
  "parse_number s =
     (case s of
        [] \<Rightarrow> None
      | c # cs \<Rightarrow>
          if c = CHR ''-'' then
            (case parse_digits cs of None \<Rightarrow> None | Some (n, rest) \<Rightarrow> Some (JNum (- int n), rest))
          else
            (case parse_digits s of None \<Rightarrow> None | Some (n, rest) \<Rightarrow> Some (JNum (int n), rest)))"

fun parse_value :: "nat \<Rightarrow> string \<Rightarrow> (jsval \<times> string) option"
  and parse_elems :: "nat \<Rightarrow> jsval list \<Rightarrow> string \<Rightarrow> (jsval \<times> string) option"
  and parse_members :: "nat \<Rightarrow> (string \<times> jsval) list \<Rightarrow> string \<Rightarrow> (jsval \<times> string) option"
where
  "parse_value 0 s = None"
| "parse_value (Suc n) s =
     (case skip_ws s of
        [] \<Rightarrow> None
      | c # r \<Rightarrow>
          if c = CHR ''{'' then
            (case skip_ws r of
               [] \<Rightarrow> None
             | c' # r' \<Rightarrow> if c' = CHR ''}'' then Some (JObj [], r') else parse_members n [] r)
          else if c = CHR ''['' then
            (case skip_ws r of
               [] \<Rightarrow> None
             | c' # r' \<Rightarrow> if c' = CHR '']'' then Some (JArr [], r') else parse_elems n [] r)
          else if c = CHR 0x22 then
            (case parse_string_body r of None \<Rightarrow> None | Some (str, r') \<Rightarrow> Some (JStr str, r'))
          else if take 4 (c # r) = ''true'' then Some (JBool True, drop 4 (c # r))
          else if take 5 (c # r) = ''false'' then Some (JBool False, drop 5 (c # r))
          else if take 4 (c # r) = ''null'' then Some (JNull, drop 4 (c # r))
          else parse_number (c # r))"
| "parse_elems 0 acc s = None"
| "parse_elems (Suc n) acc s =
     (case parse_value n s of
        None \<Rightarrow> None
      | Some (v, r) \<Rightarrow>
          (case skip_ws r of
             [] \<Rightarrow> None
           | c # r' \<Rightarrow>
               if c = CHR '','' then parse_elems n (acc @ [v]) r'
               else if c = CHR '']'' then Some (JArr (acc @ [v]), r')
               else None))"
| "parse_members 0 acc s = None"
| "parse_members (Suc n) acc s =
     (case skip_ws s of
        [] \<Rightarrow> None
      | q # r \<Rightarrow>
          if q = CHR 0x22 then
            (case parse_string_body r of
               None \<Rightarrow> None
             | Some (k, r1) \<Rightarrow>
                 (case skip_ws r1 of
                    [] \<Rightarrow> None
                  | c # r2 \<Rightarrow>
                      if c = CHR '':'' then
                        (case parse_value n r2 of
                           None \<Rightarrow> None
                         | Some (v, r3) \<Rightarrow>
                             (case skip_ws r3 of
                                [] \<Rightarrow> None
                              | d # r4 \<Rightarrow>
                                  if d = CHR '','' then parse_members n (AList.update k v acc) r4
                                  else if d = CHR ''}'' then Some (JObj (AList.update k v acc), r4)
                                  else None))
                      else None))
          else None)"

definition JSON_parse :: "string \<Rightarrow> jsval option" where
  "JSON_parse s =
     (case parse_value (length s) s of
        None \<Rightarrow> None
      | Some (v, rest) \<Rightarrow> if skip_ws rest = [] then Some v else None)"

section \<open>Fan-out (a2aService.ts, broadcast and the bus subscribers)\<close>

text \<open>
  \<open>broadcast\<close>: the payload \<open>{...message, taskId: sessionId}\<close> (\<open>stamp\<close>) keeps the properties of \<open>message\<close> in
  their order and sets \<open>taskId\<close>, in place when \<open>message\<close> has one and at the end
  otherwise. The same text goes to every socket that is \<open>OPEN\<close>; the JSON-RPC envelope
  (\<open>jsonRpcResponse\<close>) goes to every SSE response.
\<close>

definition stamp :: "string \<Rightarrow> (string \<times> jsval) list \<Rightarrow> (string \<times> jsval) list" where
  "stamp sid message = AList.update ''taskId'' (JStr sid) message"

definition jsonRpcResponse :: "(string \<times> jsval) list \<Rightarrow> jsval" where
  "jsonRpcResponse payload =
     JObj [(''jsonrpc'', JStr ''2.0''),
           (''id'', getp (JObj payload) ''taskId''),
           (''result'', JObj payload)]"

definition broadcast :: "(string \<times> jsval) list \<Rightarrow> a2a_state \<Rightarrow> a2a_state" where
  "broadcast message s =
     (let payload = stamp (sessionId s) message;
          data = JSON_stringify (JObj payload);
          s1 = s\<lparr>ws_sent := ws_sent s @ map (\<lambda>client. (client, data))
                                           (filter (readyOpen s) (clients s))\<rparr>;
          sseData = ''data: '' @ JSON_stringify (jsonRpcResponse payload) @ [CHR 0x0A, CHR 0x0A]
      in s1\<lparr>sse_written := sse_written s1 @ map (\<lambda>res. (res, sseData)) (sseClients s1)\<rparr>)"

text \<open>
  Modelled from the spec: the enum \<open>CoreToolCallStatus\<close> is declared in the core package,
  not in this repository's sources. The five values the service names, and
  \<open>OtherStatus\<close> for any other value of the enum.
\<close>

datatype CoreToolCallStatus =
    AwaitingApproval
  | Executing
  | Success
  | Error
  | Cancelled
  | OtherStatus string

text \<open>The fields of a \<open>ToolCall\<close> the service reads; a field that is not there is
  \<open>JUndefined\<close>.\<close>

record ToolCallRequestInfo =
  callId :: string
  name :: string
  args :: jsval

record ToolCallResponseInfo =
  resultDisplay :: jsval
  error :: jsval

record ToolCall =
  request :: ToolCallRequestInfo
  status :: CoreToolCallStatus
  liveOutput :: jsval
  response :: ToolCallResponseInfo

fun mapToolCallStatus :: "CoreToolCallStatus \<Rightarrow> string" where
  "mapToolCallStatus AwaitingApproval = ''PENDING''"
| "mapToolCallStatus Executing = ''EXECUTING''"
| "mapToolCallStatus Success = ''SUCCEEDED''"
| "mapToolCallStatus Error = ''FAILED''"
| "mapToolCallStatus Cancelled = ''CANCELLED''"
| "mapToolCallStatus _ = ''PENDING''"

definition mapToolCallResult :: "ToolCall \<Rightarrow> jsval" where
  "mapToolCallResult toolCall =
     (if status toolCall = Success then
        JObj [(''output'',
               JObj [(''text'', js_or (resultDisplay (response toolCall)) (JStr ''Success''))])]
      else if status toolCall = Error then
        JObj [(''error'',
               JObj [(''message'', js_or (getp (error (response toolCall)) ''message'')
                                        (JStr ''Unknown error''))])]
      else JUndefined)"

text \<open>The object the \<open>TOOL_CALLS_UPDATE\<close> subscriber hands to \<open>broadcast\<close> for one tool
  call.\<close>

definition toolCallUpdate :: "ToolCall \<Rightarrow> (string \<times> jsval) list" where
  "toolCallUpdate toolCall =
     [(''kind'', JStr ''TOOL_CALL_UPDATE''),
      (''tool_call_id'', JStr (callId (request toolCall))),
      (''status'', JStr (mapToolCallStatus (status toolCall))),
      (''tool_name'', JStr (name (request toolCall))),
      (''input_parameters'', args (request toolCall)),
      (''live_content'', if is_string (liveOutput toolCall) then liveOutput toolCall
                         else JUndefined),
      (''result'', mapToolCallResult toolCall)]"

text \<open>The subscriber: one broadcast per tool call of the batch, in order.\<close>

definition onToolCallsUpdate :: "ToolCall list \<Rightarrow> a2a_state \<Rightarrow> a2a_state" where
  "onToolCallsUpdate toolCalls s = fold (\<lambda>toolCall. broadcast (toolCallUpdate toolCall)) toolCalls s"

text \<open>The model-activity listener.\<close>

datatype ModelActivity =
    Thought string string
  | Content string
  | ToolCallRequest ToolCallRequestInfo
  | OtherActivity

fun onModelActivity :: "ModelActivity \<Rightarrow> a2a_state \<Rightarrow> a2a_state" where
  "onModelActivity (Thought subject description) s =
     broadcast [(''kind'', JStr ''THOUGHT''),
                (''thought'', JObj [(''subject'', JStr subject),
                                    (''description'', JStr description)])] s"
| "onModelActivity (Content v) s =
     broadcast [(''kind'', JStr ''TEXT_CONTENT''), (''content'', JObj [(''text'', JStr v)])] s"
| "onModelActivity (ToolCallRequest r) s =
     broadcast [(''kind'', JStr ''TOOL_CALL_UPDATE''), (''tool_call_id'', JStr (callId r)),
                (''status'', JStr ''PENDING''), (''tool_name'', JStr (name r)),
                (''input_parameters'', args r)] s"
| "onModelActivity OtherActivity s = s"

text \<open>A socket connects (the \<open>connection\<close> callback) and closes.\<close>

definition onConnection :: "nat \<Rightarrow> a2a_state \<Rightarrow> a2a_state" where
  "onConnection ws s = s\<lparr>clients := Set_add ws (clients s), readyOpen := (readyOpen s)(ws := True)\<rparr>"

definition onSocketClose :: "nat \<Rightarrow> a2a_state \<Rightarrow> a2a_state" where
  "onSocketClose ws s = s\<lparr>clients := Set_delete ws (clients s), readyOpen := (readyOpen s)(ws := False)\<rparr>"

section \<open>The remote-control server (remoteBridge.ts, remoteServer.ts)\<close>

text \<open>
  \<open>TuiRemoteBridge\<close>. The two callbacks close over the state of the terminal UI, \<open>tui\<close>:
  the message handler changes it, the history provider reads it. \<open>None\<close> is \<open>null\<close>.
\<close>

record ('m, 'h, 't) TuiRemoteBridge =
  onMessage :: "('m \<Rightarrow> 't \<Rightarrow> 't) option"
  getHistory :: "('t \<Rightarrow> 'h list) option"
  tui :: 't


definition unregister :: "('m, 'h, 't) TuiRemoteBridge \<Rightarrow> ('m, 'h, 't) TuiRemoteBridge" where
  "unregister b = b\<lparr>onMessage := None, getHistory := None\<rparr>"

definition submitMessage ::
  "'m \<Rightarrow> ('m, 'h, 't) TuiRemoteBridge \<Rightarrow> bool \<times> ('m, 'h, 't) TuiRemoteBridge" where
  "submitMessage msg b =
     (case onMessage b of
        Some f \<Rightarrow> (True, b\<lparr>tui := f msg (tui b)\<rparr>)
      | None \<Rightarrow> (False, b))"

definition getCurrentHistory :: "('m, 'h, 't) TuiRemoteBridge \<Rightarrow> 'h list" where
  "getCurrentHistory b = (case getHistory b of Some g \<Rightarrow> g (tui b) | None \<Rightarrow> [])"

definition isRegistered :: "('m, 'h, 't) TuiRemoteBridge \<Rightarrow> bool" where
  "isRegistered b = (onMessage b \<noteq> None \<and> getHistory b \<noteq> None)"

text \<open>The two fields of a \<open>HistoryItem\<close> the server reads.\<close>

record HistoryItem =
  item_type :: string
  item_text :: jsval

text \<open>
  \<open>parseInt(s, 10)\<close>: leading white space, a sign, then the longest run of decimal
  digits; \<open>None\<close> is \<open>NaN\<close>.
\<close>

definition is_js_space :: "char \<Rightarrow> bool" where
  "is_js_space c = (c = CHR 0x09 \<or> c = CHR 0x0A \<or> c = CHR 0x0B \<or> c = CHR 0x0C \<or>
                    c = CHR 0x0D \<or> c = CHR 0x20 \<or> c = CHR 0xA0)"

definition parseInt10 :: "string \<Rightarrow> int option" where
  "parseInt10 s =
     (let t = dropWhile is_js_space s;
          neg = (t \<noteq> [] \<and> hd t = CHR ''-'');
          u = (if t \<noteq> [] \<and> (hd t = CHR ''-'' \<or> hd t = CHR ''+'') then tl t else t);
          ds = takeWhile is_digit u
      in if ds = [] then None
         else Some (if neg then - int (digits_val ds) else int (digits_val ds)))"

text \<open>The parts of a request the handler reads; \<open>req_limit\<close> is
  \<open>url.searchParams.get('limit')\<close>.\<close>

record remote_request =
  req_method :: string
  req_path :: string
  req_limit :: "string option"
  req_body :: string

text \<open>A response: the status and the body; every response of this server has the
  content type \<open>application/json\<close>.\<close>

type_synonym remote_response = "nat \<times> string"

definition json_error :: "nat \<Rightarrow> string \<Rightarrow> remote_response" where
  "json_error code msg = (code, JSON_stringify (JObj [(''error'', JStr msg)]))"

text \<open>
  \<open>POST /message\<close>, the \<open>end\<close> callback. \<open>jsonParse\<close> is the runtime's \<open>JSON.parse\<close>, \<open>None\<close>
  when it throws. Destructuring \<open>null\<close> throws inside the same \<open>try\<close>. The message
  handler of the bridge is a total function of the state of the terminal UI.
\<close>

definition postMessage ::
  "(string \<Rightarrow> jsval option) \<Rightarrow> string \<Rightarrow> (jsval, 'h, 't) TuiRemoteBridge \<Rightarrow>
     remote_response \<times> (jsval, 'h, 't) TuiRemoteBridge" where
  "postMessage jsonParse body b =
     (case jsonParse body of
        None \<Rightarrow> (json_error 400 ''Invalid JSON'', b)
      | Some parsed \<Rightarrow>
          if parsed = JNull \<or> parsed = JUndefined then (json_error 400 ''Invalid JSON'', b)
          else
            let message = getp parsed ''message'' in
            if \<not> truthy message then (json_error 400 ''Message is required'', b)
            else if \<not> isRegistered b then (json_error 503 ''TUI bridge is not yet registered'', b)
            else
              ((200, JSON_stringify (JObj [(''status'', JStr ''Message submitted'')])),
               snd (submitMessage message b)))"

text \<open>\<open>history.slice(-limit)\<close> for a positive \<open>limit\<close>.\<close>

definition slice_from_end :: "int \<Rightarrow> 'a list \<Rightarrow> 'a list" where
  "slice_from_end limit xs = drop (nat (max (int (length xs) - limit) 0)) xs"

text \<open>\<open>GET /history\<close>\<close>

definition getHistoryRoute ::
  "string option \<Rightarrow> ('m, HistoryItem, 't) TuiRemoteBridge \<Rightarrow> remote_response" where
  "getHistoryRoute limitParam b =
     (if \<not> isRegistered b then json_error 503 ''TUI bridge is not yet registered''
      else
        let limit = parseInt10 (case limitParam of None \<Rightarrow> ''0''
                                 | Some v \<Rightarrow> if v = [] then ''0'' else v);
            history = getCurrentHistory b;
            history1 =
              map (\<lambda>item. JObj [(''role'', JStr (if item_type item = ''user'' then ''user''
                                                  else ''model'')),
                                 (''text'', item_text item)])
                (filter (\<lambda>item. (item_type item = ''user'' \<or> item_type item = ''gemini'' \<or>
                                  item_type item = ''gemini_content'') \<and> truthy (item_text item))
                   history);
            history2 = (case limit of
                          None \<Rightarrow> history1
                        | Some n \<Rightarrow> if n > 0 then slice_from_end n history1 else history1)
        in (200, JSON_stringify (JArr history2)))"

text \<open>The request handler of \<open>startRemoteServer\<close>.\<close>

definition remoteHandler ::
  "(string \<Rightarrow> jsval option) \<Rightarrow> remote_request \<Rightarrow> (jsval, HistoryItem, 't) TuiRemoteBridge \<Rightarrow>
     remote_response \<times> (jsval, HistoryItem, 't) TuiRemoteBridge" where
  "remoteHandler jsonParse req b =
     (if req_method req = ''POST'' \<and> req_path req = ''/message''
        then postMessage jsonParse (req_body req) b
      else if req_method req = ''GET'' \<and> req_path req = ''/history''
        then (getHistoryRoute (req_limit req) b, b)
      else (json_error 404 ''Not Found'', b))"

section \<open>The specification's tables and views\<close>

text \<open>The status table of the specification; any other value is \<open>PENDING\<close>.\<close>

definition spec_status_table :: "(CoreToolCallStatus \<times> string) list" where
  "spec_status_table =
     [(AwaitingApproval, ''PENDING''), (Executing, ''EXECUTING''), (Success, ''SUCCEEDED''),
      (Error, ''FAILED''), (Cancelled, ''CANCELLED'')]"

definition spec_status :: "CoreToolCallStatus \<Rightarrow> string" where
  "spec_status st = (case map_of spec_status_table st of Some v \<Rightarrow> v | None \<Rightarrow> ''PENDING'')"

text \<open>A tool call that succeeded with the empty string as its display result.\<close>

definition emptyDisplayCall :: ToolCall where
  "emptyDisplayCall =
     \<lparr>request = \<lparr>callId = ''t1'', name = ''ls'', args = JObj []\<rparr>, status = Success,
      liveOutput = JUndefined, response = \<lparr>resultDisplay = JStr [], error = JUndefined\<rparr>\<rparr>"




section \<open>What a JSON text keeps of a value\<close>

text \<open>
  The value a reader of the text gets back: the properties that are \<open>undefined\<close> are
  gone and an \<open>undefined\<close> element of an array is \<open>null\<close>.
\<close>

fun json_view :: "jsval \<Rightarrow> jsval" where
  "json_view JUndefined = JNull"
| "json_view (JArr xs) = JArr (map json_view xs)"
| "json_view (JObj kvs) =
     JObj (map (\<lambda>kv. (fst kv, json_view (snd kv))) (filter (\<lambda>kv. snd kv \<noteq> JUndefined) kvs))"
| "json_view v = v"

text \<open>An object has each of its keys once, at every depth.\<close>

fun keys_distinct :: "jsval \<Rightarrow> bool" where
  "keys_distinct (JArr xs) = list_all keys_distinct xs"
| "keys_distinct (JObj kvs) =
     (distinct (map fst kvs) \<and> list_all (\<lambda>kv. keys_distinct (snd kv)) kvs)"
| "keys_distinct v = True"

text \<open>What may follow a value inside a text: nothing, or a separator.\<close>

definition delim :: "string \<Rightarrow> bool" where
  "delim rest = (case rest of [] \<Rightarrow> True
                 | c # cs \<Rightarrow> c = CHR '','' \<or> c = CHR '']'' \<or> c = CHR ''}'')"

text \<open>What a serialised value starts with: not white space, not a closing bracket.\<close>

definition opener :: "char \<Rightarrow> bool" where
  "opener c = (\<not> is_ws c \<and> c \<noteq> CHR '']'' \<and> c \<noteq> CHR ''}'')"

text \<open>The content event of the model text \<open>hi\<close>, and the service of session \<open>S\<close> with
  one open socket and one SSE response.\<close>

definition hiEvent :: "(string \<times> jsval) list" where
  "hiEvent = [(''kind'', JStr ''TEXT_CONTENT''), (''content'', JObj [(''text'', JStr ''hi'')])]"

definition twoPeers :: a2a_state where
  "twoPeers = snd (handleStreamRequest None (JObj []) 5 (onConnection 1 (a2a_init ''S'')))"

section \<open>Properties of the A2A handlers\<close>

lemma getp_defined_record: "getp x k \<noteq> JUndefined \<Longrightarrow> is_record x"
  by (cases x) auto

lemma contentOf_defined:
  assumes "getp (contentOf m) k \<noteq> JUndefined"
  shows "is_record (contentOf m)" and "is_record (getp (getp m ''params'') ''message'')"
    and "is_record (getp m ''params'')" and "is_record m"
proof -
  show c: "is_record (contentOf m)"
    using assms by (rule getp_defined_record)
  then have "contentOf m \<noteq> JUndefined" by auto
  then show ms: "is_record (getp (getp m ''params'') ''message'')"
    unfolding contentOf_def by (rule getp_defined_record)
  then have "getp (getp m ''params'') ''message'' \<noteq> JUndefined" by auto
  then show ps: "is_record (getp m ''params'')"
    by (rule getp_defined_record)
  then have "getp m ''params'' \<noteq> JUndefined" by auto
  then show "is_record m"
    by (rule getp_defined_record)
qed

lemma publishConfirmation_strings:
  assumes "getp d ''tool_call_id'' = JStr t" and "getp d ''selected_option_id'' = JStr opt"
  shows "publishConfirmation d s =
         s\<lparr>published := published s @
              [\<lparr>correlationId = t, confirmed = (opt = ''proceed_once'')\<rparr>]\<rparr>"
  using assms by (simp add: publishConfirmation_def publish_def)

lemma handleClientMessage_confirmation:
  assumes meth: "getp m ''method'' = JStr ''message/stream''"
    and kind: "getp (getp (contentOf m) ''data'') ''kind'' = JStr ''TOOL_CALL_CONFIRMATION''"
    and tid: "getp (getp (contentOf m) ''data'') ''tool_call_id'' = JStr t"
    and opt: "getp (getp (contentOf m) ''data'') ''selected_option_id'' = JStr opt"
  shows "handleClientMessage m s =
         s\<lparr>published := published s @
              [\<lparr>correlationId = t, confirmed = (opt = ''proceed_once'')\<rparr>]\<rparr>"
proof -
  have d: "is_record (getp (contentOf m) ''data'')"
    using kind by (intro getp_defined_record[of _ "''kind''"]) simp
  then have "getp (contentOf m) ''data'' \<noteq> JUndefined" by auto
  note recs = contentOf_defined[OF this]
  have "handleClientMessage m s = publishConfirmation (getp (contentOf m) ''data'') s"
    using meth kind d recs
    by (simp add: handleClientMessage_def contentOf_def Let_def)
  then show ?thesis
    by (simp add: publishConfirmation_strings[OF tid opt])
qed

lemma routeStreamBody_confirmation:
  assumes kind: "getp (getp (contentOf body) ''data'') ''kind'' = JStr ''TOOL_CALL_CONFIRMATION''"
    and tid: "getp (getp (contentOf body) ''data'') ''tool_call_id'' = JStr t"
    and opt: "getp (getp (contentOf body) ''data'') ''selected_option_id'' = JStr opt"
  shows "routeStreamBody body s =
         (if is_string (getp (contentOf body) ''text'')
          then s\<lparr>injected := injected s @ [str_of (getp (contentOf body) ''text'')]\<rparr>
          else s\<lparr>published := published s @
              [\<lparr>correlationId = t, confirmed = (opt = ''proceed_once'')\<rparr>]\<rparr>)"
proof -
  have d: "is_record (getp (contentOf body) ''data'')"
    using kind by (intro getp_defined_record[of _ "''kind''"]) simp
  show ?thesis
    using kind d
    by (simp add: routeStreamBody_def contentOf_def Let_def emitInjectInput_def
        publishConfirmation_strings[OF tid opt, unfolded contentOf_def])
qed

lemma handleStreamRequest_accept:
  assumes "taskId = None \<or> taskId = Some (sessionId s)"
    and "body \<noteq> JUndefined" and "body \<noteq> JNull"
  shows "handleStreamRequest taskId body res s =
         (EventStream sse_headers,
          routeStreamBody body (s\<lparr>sseClients := Set_add res (sseClients s)\<rparr>))"
  using assms by (auto simp: handleStreamRequest_def Let_def)

lemma sessionId_publishConfirmation [simp]:
  "sessionId (publishConfirmation d s) = sessionId s"
  by (simp add: publishConfirmation_def publish_def Let_def)

lemma sessionId_handleClientMessage [simp]:
  "sessionId (handleClientMessage m s) = sessionId s"
  by (simp add: handleClientMessage_def emitInjectInput_def Let_def)

lemma sessionId_routeStreamBody [simp]:
  "sessionId (routeStreamBody body s) = sessionId s"
  by (simp add: routeStreamBody_def emitInjectInput_def Let_def)

lemma sessionId_deliver [simp]: "sessionId (deliver e s) = sessionId s"
  by (cases e) (auto simp: wsOnMessage_def handleStreamRequest_def Let_def split: option.splits)

lemma contentOf_confirmationMessage:
  "getp (contentOf (confirmationMessage t opt)) ''data'' =
     JObj [(''kind'', JStr ''TOOL_CALL_CONFIRMATION''), (''tool_call_id'', JStr t),
           (''selected_option_id'', JStr opt)]"
  "getp (contentOf (confirmationMessage t opt)) ''text'' = JUndefined"
  "getp (confirmationMessage t opt) ''method'' = JStr ''message/stream''"
  by (simp_all add: contentOf_def confirmationMessage_def)

lemma deliver_confirmationMessage:
  "published (deliver (arrival (sessionId s) v (confirmationMessage t opt)) s) =
     published s @ [\<lparr>correlationId = t, confirmed = (opt = ''proceed_once'')\<rparr>]"
proof (cases v)
  case ViaSocket
  have "is_record (confirmationMessage t opt)"
    by (simp add: confirmationMessage_def)
  then show ?thesis
    using ViaSocket
    by (simp add: wsOnMessage_def handleClientMessage_confirmation contentOf_confirmationMessage)
next
  case (ViaStream res)
  have b: "confirmationMessage t opt \<noteq> JUndefined" "confirmationMessage t opt \<noteq> JNull"
    by (simp_all add: confirmationMessage_def)
  show ?thesis
    using ViaStream
    by (simp add: handleStreamRequest_accept[OF _ b] routeStreamBody_confirmation
        contentOf_confirmationMessage)
next
  case (ViaTaskStream res)
  have b: "confirmationMessage t opt \<noteq> JUndefined" "confirmationMessage t opt \<noteq> JNull"
    by (simp_all add: confirmationMessage_def)
  show ?thesis
    using ViaTaskStream
    by (simp add: handleStreamRequest_accept[OF _ b] routeStreamBody_confirmation
        contentOf_confirmationMessage)
qed

text \<open>
  C1 (as stated, refuted). Two peers answer the confirmation \<open>c1\<close> on their sockets, the
  first with \<open>proceed_once\<close>, the second with \<open>cancel\<close>: the bus receives both responses.
\<close>

theorem at_most_one_confirmation_counterexample:
  "published (deliver (WsFrame (Some (confirmationMessage ''c1'' ''cancel'')))
               (deliver (WsFrame (Some (confirmationMessage ''c1'' ''proceed_once'')))
                 (a2a_init ''S''))) =
   [\<lparr>correlationId = ''c1'', confirmed = True\<rparr>,
    \<lparr>correlationId = ''c1'', confirmed = False\<rparr>]"
  by (simp add: wsOnMessage_def handleClientMessage_def publishConfirmation_def publish_def
      confirmationMessage_def a2a_init_def)

text \<open>
  C1 (amended). The service keeps no record of the correlation identifiers it has seen:
  every confirmation message, from a socket or a stream request, is published, so a
  sequence of answers to the confirmation \<open>t\<close> puts one response per answer on the bus, in
  the order of arrival, the first answer first.
\<close>

theorem every_confirmation_published:
  "published (fold (\<lambda>(v, opt). deliver (arrival (sessionId s) v (confirmationMessage t opt)))
                answers s) =
   published s @
   map (\<lambda>(v, opt). \<lparr>correlationId = t, confirmed = (opt = ''proceed_once'')\<rparr>) answers"
proof (induction answers arbitrary: s)
  case Nil
  show ?case by simp
next
  case (Cons a answers)
  obtain v opt where a: "a = (v, opt)" by (cases a)
  let ?s1 = "deliver (arrival (sessionId s) v (confirmationMessage t opt)) s"
  have sid: "sessionId ?s1 = sessionId s" by simp
  have "published (fold (\<lambda>(v, opt). deliver (arrival (sessionId s) v (confirmationMessage t opt)))
                     answers ?s1) =
        published ?s1 @
        map (\<lambda>(v, opt). \<lparr>correlationId = t, confirmed = (opt = ''proceed_once'')\<rparr>) answers"
    using Cons.IH[of ?s1] unfolding sid .
  then show ?case
    by (simp add: a deliver_confirmationMessage)
qed

text \<open>
  C2. A \<open>TOOL_CALL_CONFIRMATION\<close> whose \<open>tool_call_id\<close> and \<open>selected_option_id\<close> are the
  strings \<open>t\<close> and \<open>opt\<close> is published with \<open>confirmed\<close> true exactly when \<open>opt\<close> is
  \<open>proceed_once\<close>: on a socket for a \<open>message/stream\<close> message, on an accepted stream
  request unless the content has a text string (then nothing is published).
\<close>

theorem confirmed_iff_proceed_once:
  assumes "getp (getp (contentOf m) ''data'') ''kind'' = JStr ''TOOL_CALL_CONFIRMATION''"
    and "getp (getp (contentOf m) ''data'') ''tool_call_id'' = JStr t"
    and "getp (getp (contentOf m) ''data'') ''selected_option_id'' = JStr opt"
  shows "(getp m ''method'' = JStr ''message/stream'' \<longrightarrow>
            published (deliver (WsFrame (Some m)) s) =
            published s @ [\<lparr>correlationId = t, confirmed = (opt = ''proceed_once'')\<rparr>]) \<and>
         (taskId = None \<or> taskId = Some (sessionId s) \<longrightarrow>
            published (deliver (StreamPost taskId m res) s) =
            (if is_string (getp (contentOf m) ''text'') then published s
             else published s @
                  [\<lparr>correlationId = t, confirmed = (opt = ''proceed_once'')\<rparr>]))"
proof -
  have "getp (contentOf m) ''data'' \<noteq> JUndefined"
    using assms(1) by (cases "getp (contentOf m) ''data''") auto
  then have rec: "is_record m"
    by (rule contentOf_defined)
  then have b: "m \<noteq> JUndefined" "m \<noteq> JNull" by auto
  show ?thesis
    using rec
    by (auto simp: wsOnMessage_def handleClientMessage_confirmation[OF _ assms]
        handleStreamRequest_accept[OF _ b] routeStreamBody_confirmation[OF assms])
qed

theorem confirmed_iff_proceed_once_witness:
  "published (deliver (WsFrame (Some (confirmationMessage ''c1'' ''proceed_once''))) (a2a_init ''S'')) =
     [\<lparr>correlationId = ''c1'', confirmed = True\<rparr>] \<and>
   published (deliver (StreamPost None (confirmationMessage ''c1'' ''proceed_once'') 0) (a2a_init ''S'')) =
     [\<lparr>correlationId = ''c1'', confirmed = True\<rparr>]"
proof -
  let ?m = "confirmationMessage ''c1'' ''proceed_once''"
  have k: "getp (getp (contentOf ?m) ''data'') ''kind'' = JStr ''TOOL_CALL_CONFIRMATION''"
    and t: "getp (getp (contentOf ?m) ''data'') ''tool_call_id'' = JStr ''c1''"
    and opt: "getp (getp (contentOf ?m) ''data'') ''selected_option_id'' = JStr ''proceed_once''"
    by (simp_all add: contentOf_confirmationMessage)
  show ?thesis
    using confirmed_iff_proceed_once[OF k t opt, where taskId = None and s = "a2a_init ''S''"
        and res = 0]
    by (simp add: contentOf_confirmationMessage a2a_init_def)
qed

text \<open>
  C5 (the code at the failing input). A message whose content has the text \<open>hi\<close> and a
  confirmation of \<open>c1\<close>: a stream request injects the text and publishes nothing, the
  socket publishes the confirmation and injects nothing.
\<close>

theorem text_and_data_by_transport:
  "injected (deliver (StreamPost None (textAndConfirmation ''hi'' ''c1'' ''proceed_once'') 0)
              (a2a_init ''S'')) = [''hi''] \<and>
   published (deliver (StreamPost None (textAndConfirmation ''hi'' ''c1'' ''proceed_once'') 0)
              (a2a_init ''S'')) = [] \<and>
   injected (deliver (WsFrame (Some (textAndConfirmation ''hi'' ''c1'' ''proceed_once'')))
              (a2a_init ''S'')) = [] \<and>
   published (deliver (WsFrame (Some (textAndConfirmation ''hi'' ''c1'' ''proceed_once'')))
              (a2a_init ''S'')) = [\<lparr>correlationId = ''c1'', confirmed = True\<rparr>]"
  by (simp add: wsOnMessage_def handleClientMessage_def handleStreamRequest_def
      routeStreamBody_def publishConfirmation_def publish_def emitInjectInput_def
      textAndConfirmation_def a2a_init_def Set_add_def)

lemma handleStreamRequest_reject:
  assumes "t \<noteq> []" and "t \<noteq> sessionId s"
  shows "handleStreamRequest (Some t) body res s =
         (JsonReply 404 (JObj [(''error'', JStr ''Task not found'')]), s)"
  using assms by (simp add: handleStreamRequest_def)

lemma handleStreamRequest_no_body:
  assumes "taskId = None \<or> taskId = Some (sessionId s)"
    and "body = JUndefined \<or> body = JNull"
  shows "handleStreamRequest taskId body res s =
         (EventStreamThrew sse_headers, s\<lparr>sseClients := Set_add res (sseClients s)\<rparr>)"
  using assms by (auto simp: handleStreamRequest_def Let_def)

lemma routeStreamBody_text:
  assumes "getp (contentOf body) ''text'' = JStr txt"
  shows "routeStreamBody body s = s\<lparr>injected := injected s @ [txt]\<rparr>"
  using assms by (simp add: routeStreamBody_def contentOf_def Let_def emitInjectInput_def)

lemma routeStreamBody_dropped:
  assumes "\<not> is_string (getp (contentOf body) ''text'')"
    and "\<not> (is_record (getp (contentOf body) ''data'') \<and>
            getp (getp (contentOf body) ''data'') ''kind'' = JStr ''TOOL_CALL_CONFIRMATION'')"
  shows "routeStreamBody body s = s"
  using assms by (auto simp: routeStreamBody_def contentOf_def Let_def)

text \<open>
  C8 (the code at the failing input). In the session \<open>S\<close>, a stream request for the
  task \<open>S\<close> that arrives without a parsed body: the response is registered as an SSE peer,
  then reading \<open>body.params\<close> throws and nothing is routed. The same request with the
  prompt \<open>hi\<close> as its body opens the stream, registers the peer and injects \<open>hi\<close>, also
  on a route without the parameter; a request for another task is answered 404 and
  changes nothing.
\<close>

theorem stream_request_without_body:
  "handleStreamRequest (Some ''S'') JUndefined 7 (a2a_init ''S'') =
     (EventStreamThrew sse_headers, (a2a_init ''S'')\<lparr>sseClients := [7]\<rparr>) \<and>
   handleStreamRequest (Some ''S'') (textMessage ''hi'') 7 (a2a_init ''S'') =
     (EventStream sse_headers, (a2a_init ''S'')\<lparr>sseClients := [7], injected := [''hi'']\<rparr>) \<and>
   handleStreamRequest None (textMessage ''hi'') 7 (a2a_init ''S'') =
     (EventStream sse_headers, (a2a_init ''S'')\<lparr>sseClients := [7], injected := [''hi'']\<rparr>) \<and>
   handleStreamRequest (Some ''other'') (textMessage ''hi'') 7 (a2a_init ''S'') =
     (JsonReply 404 (JObj [(''error'', JStr ''Task not found'')]), a2a_init ''S'') \<and>
   map_of sse_headers ''Content-Type'' = Some ''text/event-stream''"
proof -
  have sid: "sessionId (a2a_init ''S'') = ''S''"
    by (simp add: a2a_init_def)
  have reg: "(a2a_init ''S'')\<lparr>sseClients := Set_add 7 (sseClients (a2a_init ''S''))\<rparr> =
             (a2a_init ''S'')\<lparr>sseClients := [7]\<rparr>"
    by (simp add: a2a_init_def Set_add_def)
  have missing: "handleStreamRequest (Some ''S'') JUndefined 7 (a2a_init ''S'') =
      (EventStreamThrew sse_headers, (a2a_init ''S'')\<lparr>sseClients := [7]\<rparr>)"
    by (simp add: handleStreamRequest_no_body sid reg)
  have prompt: "getp (contentOf (textMessage ''hi'')) ''text'' = JStr ''hi''"
    by (simp add: contentOf_def textMessage_def)
  have b: "textMessage ''hi'' \<noteq> JUndefined" "textMessage ''hi'' \<noteq> JNull"
    by (simp_all add: textMessage_def)
  have routed: "routeStreamBody (textMessage ''hi'') ((a2a_init ''S'')\<lparr>sseClients := [7]\<rparr>) =
      (a2a_init ''S'')\<lparr>sseClients := [7], injected := [''hi'']\<rparr>"
    by (simp add: routeStreamBody_text[OF prompt]) (simp add: a2a_init_def)
  have named: "handleStreamRequest (Some ''S'') (textMessage ''hi'') 7 (a2a_init ''S'') =
      (EventStream sse_headers, (a2a_init ''S'')\<lparr>sseClients := [7], injected := [''hi'']\<rparr>)"
    by (simp add: handleStreamRequest_accept[OF _ b] sid reg routed)
  have unnamed: "handleStreamRequest None (textMessage ''hi'') 7 (a2a_init ''S'') =
      (EventStream sse_headers, (a2a_init ''S'')\<lparr>sseClients := [7], injected := [''hi'']\<rparr>)"
    by (simp add: handleStreamRequest_accept[OF _ b] reg routed)
  have other: "handleStreamRequest (Some ''other'') (textMessage ''hi'') 7 (a2a_init ''S'') =
      (JsonReply 404 (JObj [(''error'', JStr ''Task not found'')]), a2a_init ''S'')"
    by (rule handleStreamRequest_reject) (simp_all add: sid)
  have hdr: "map_of sse_headers ''Content-Type'' = Some ''text/event-stream''"
    by (simp add: sse_headers_def)
  show ?thesis
    using missing named unnamed other hdr by blast
qed

section \<open>Reading back what was serialised\<close>

lemma hex_val_hex_char: "d < 16 \<Longrightarrow> hex_val (hex_char d) = Some d"
  by (auto simp: hex_val_def hex_char_def Let_def)

lemma cons_to_Some [simp]: "cons_to c (Some (s, rest)) = Some (c # s, rest)"
  by (simp add: cons_to_def)

lemma parse_escape_char:
  assumes "parse_string_body rest = Some (s, rest')"
  shows "parse_string_body (escape_char c @ rest) = Some (c # s, rest')"
proof -
  consider (ctl) "(of_char c :: nat) < 32" | (dq) "c = CHR 0x22" | (bsl) "c = CHR 0x5C"
    | (plain) "\<not> (of_char c :: nat) < 32" "c \<noteq> CHR 0x22" "c \<noteq> CHR 0x5C"
    by blast
  then show ?thesis
  proof cases
    case ctl
    then have hi: "(of_char c :: nat) div 16 < 16" and lo: "(of_char c :: nat) mod 16 < 16"
      by auto
    have same: "char_of ((of_char c :: nat) div 16 * 16 + of_char c mod 16) = c"
      by simp
    have z: "hex_val CHR ''0'' = Some 0"
      by (simp add: hex_val_def)
    show ?thesis
      using ctl assms same
      by (auto simp: escape_char_def unescape_def hex4_def z hex_val_hex_char[OF hi] hex_val_hex_char[OF lo])
  next
    case dq
    then show ?thesis using assms by (simp add: escape_char_def unescape_def)
  next
    case bsl
    then show ?thesis using assms by (simp add: escape_char_def unescape_def)
  next
    case plain
    then have "escape_char c = [c]"
      by (auto simp: escape_char_def)
    then show ?thesis using plain assms by simp
  qed
qed

lemma parse_string_body_escaped:
  "parse_string_body (concat (map escape_char s) @ CHR 0x22 # rest) = Some (s, rest)"
  by (induction s) (simp_all add: parse_escape_char)

lemma char_of_48: "char_of (48::nat) = CHR ''0''"
proof -
  have "(of_char (char_of (48::nat)) :: nat) = of_char CHR ''0''" by simp
  then show ?thesis by (rule of_char_eq_iff[THEN iffD1])
qed

lemma of_char_digit_char: "d < 10 \<Longrightarrow> (of_char (digit_char d) :: nat) = 48 + d"
  by (simp add: digit_char_def)

lemma is_digit_digit_char: "d < 10 \<Longrightarrow> is_digit (digit_char d)"
  by (simp add: is_digit_def of_char_digit_char)

lemma digit_val_digit_char: "d < 10 \<Longrightarrow> digit_val (digit_char d) = d"
  by (simp add: digit_val_def of_char_digit_char)

lemma digit_char_zero: "d < 10 \<Longrightarrow> digit_char d = CHR ''0'' \<longleftrightarrow> d = 0"
proof
  assume "d < 10" "digit_char d = CHR ''0''"
  then have "(of_char (digit_char d) :: nat) = of_char CHR ''0''" by simp
  then show "d = 0" using \<open>d < 10\<close> by (simp add: of_char_digit_char)
next
  assume "d = 0"
  then show "digit_char d = CHR ''0''" by (simp add: digit_char_def char_of_48)
qed

lemma show_nat_nonempty: "show_nat n \<noteq> []"
  by (subst show_nat.simps) simp

lemma show_nat_digits: "list_all is_digit (show_nat n)"
proof (induction n rule: show_nat.induct)
  case (1 n)
  show ?case
  proof (cases "n < 10")
    case True
    then show ?thesis
      by (subst show_nat.simps) (simp add: is_digit_digit_char)
  next
    case False
    then show ?thesis
      using 1 by (subst show_nat.simps) (simp add: is_digit_digit_char)
  qed
qed

lemma digits_val_snoc: "digits_val (ds @ [c]) = 10 * digits_val ds + digit_val c"
  by (simp add: digits_val_def)

lemma digits_val_show_nat: "digits_val (show_nat n) = n"
proof (induction n rule: show_nat.induct)
  case (1 n)
  show ?case
  proof (cases "n < 10")
    case True
    then show ?thesis
      by (subst show_nat.simps) (simp add: digits_val_def digit_val_digit_char)
  next
    case False
    then have "digits_val (show_nat (n div 10)) = n div 10"
      using 1 by simp
    then show ?thesis
      using False by (subst show_nat.simps) (simp add: digits_val_snoc digit_val_digit_char)
  qed
qed

lemma hd_show_nat: "0 < n \<Longrightarrow> hd (show_nat n) \<noteq> CHR ''0''"
proof (induction n rule: show_nat.induct)
  case (1 n)
  show ?case
  proof (cases "n < 10")
    case True
    then show ?thesis
      using "1.prems" by (subst show_nat.simps) (simp add: digit_char_zero)
  next
    case False
    then have "hd (show_nat (n div 10)) \<noteq> CHR ''0''"
      using 1 by simp
    then show ?thesis
      using False by (subst show_nat.simps) (simp add: show_nat_nonempty)
  qed
qed

lemma show_nat_zero: "show_nat 0 = ''0''"
  by (subst show_nat.simps) (simp add: digit_char_def char_of_48)

lemma delim_not_digit: "delim (c # cs) \<Longrightarrow> \<not> is_digit c"
  by (auto simp: delim_def is_digit_def)

lemma takeWhile_digits:
  assumes "list_all is_digit ds" and "delim rest"
  shows "takeWhile is_digit (ds @ rest) = ds" and "dropWhile is_digit (ds @ rest) = rest"
proof -
  have a: "\<forall>c\<in>set ds. is_digit c"
    using assms(1) by (simp add: list_all_iff)
  have r: "takeWhile is_digit rest = []" "dropWhile is_digit rest = rest"
    using assms(2) by (cases rest; simp add: delim_not_digit)+
  show "takeWhile is_digit (ds @ rest) = ds"
    using a r by (simp add: takeWhile_append2)
  show "dropWhile is_digit (ds @ rest) = rest"
    using a r by (simp add: dropWhile_append2)
qed

lemma parse_digits_show_nat:
  assumes "delim rest"
  shows "parse_digits (show_nat n @ rest) = Some (n, rest)"
proof -
  note tw = takeWhile_digits[OF show_nat_digits assms]
  have lead: "\<not> (hd (show_nat n) = CHR ''0'' \<and> tl (show_nat n) \<noteq> [])"
  proof (cases "n = 0")
    case True
    then show ?thesis by (simp add: show_nat_zero)
  next
    case False
    then show ?thesis using hd_show_nat[of n] by simp
  qed
  have frac: "\<not> (rest \<noteq> [] \<and> (hd rest = CHR ''.'' \<or> hd rest = CHR ''e'' \<or> hd rest = CHR ''E''))"
    using assms by (cases rest) (auto simp: delim_def)
  show ?thesis
    using lead frac
    by (simp add: parse_digits_def Let_def tw show_nat_nonempty digits_val_show_nat)
qed

lemma hd_show_nat_digit: "is_digit (hd (show_nat n))"
  using show_nat_digits[of n] show_nat_nonempty[of n]
  by (cases "show_nat n") simp_all

lemma parse_number_show_int:
  assumes "delim rest"
  shows "parse_number (show_int i @ rest) = Some (JNum i, rest)"
proof (cases "i < 0")
  case True
  then show ?thesis
    by (simp add: parse_number_def show_int_def parse_digits_show_nat[OF assms])
next
  case False
  obtain c cs where sn: "show_nat (nat i) = c # cs"
    using show_nat_nonempty[of "nat i"] by (cases "show_nat (nat i)") auto
  have "is_digit c"
    using hd_show_nat_digit[of "nat i"] sn by simp
  then have "c \<noteq> CHR ''-''"
    by (auto simp: is_digit_def)
  moreover have "parse_digits (c # cs @ rest) = Some (nat i, rest)"
    using parse_digits_show_nat[OF assms, of "nat i"] sn by simp
  ultimately show ?thesis
    using False by (simp add: parse_number_def show_int_def sn)
qed

lemma skip_ws_Cons: "\<not> is_ws c \<Longrightarrow> skip_ws (c # cs) = c # cs"
  by (simp add: skip_ws_def)

lemma skip_ws_delim: "delim rest \<Longrightarrow> skip_ws rest = rest"
  by (cases rest) (auto simp: delim_def skip_ws_def is_ws_def)

lemma parse_value_number:
  assumes "is_digit c \<or> c = CHR ''-''"
  shows "parse_value (Suc n) (c # r) = parse_number (c # r)"
proof -
  have "\<not> is_ws c" "c \<noteq> CHR ''{''" "c \<noteq> CHR ''[''" "c \<noteq> CHR 0x22"
    "c \<noteq> CHR ''t''" "c \<noteq> CHR ''f''" "c \<noteq> CHR ''n''"
    using assms by (auto simp: is_digit_def is_ws_def)
  then show ?thesis
    by (simp add: skip_ws_Cons)
qed

lemma show_int_head:
  "\<exists>c cs. show_int i = c # cs \<and> (is_digit c \<or> c = CHR ''-'')"
proof (cases "i < 0")
  case True
  then show ?thesis by (simp add: show_int_def)
next
  case False
  then show ?thesis
    using hd_show_nat_digit[of "nat i"] show_nat_nonempty[of "nat i"]
    by (cases "show_nat (nat i)") (simp_all add: show_int_def)
qed

lemma parse_value_JNum:
  assumes "delim rest"
  shows "parse_value (Suc n) (show_int i @ rest) = Some (JNum i, rest)"
proof -
  obtain c cs where h: "show_int i = c # cs" "is_digit c \<or> c = CHR ''-''"
    using show_int_head by blast
  have "parse_value (Suc n) (c # cs @ rest) = parse_number (c # cs @ rest)"
    using h(2) by (rule parse_value_number)
  then show ?thesis
    using parse_number_show_int[OF assms, of i] by (simp add: h(1))
qed

lemma parse_value_JStr:
  "parse_value (Suc n) (quote s @ rest) = Some (JStr s, rest)"
  by (simp add: quote_def skip_ws_def is_ws_def parse_string_body_escaped)

lemma parse_value_null: "parse_value (Suc n) (''null'' @ rest) = Some (JNull, rest)"
  by (simp add: skip_ws_def is_ws_def)

lemma parse_value_true: "parse_value (Suc n) (''true'' @ rest) = Some (JBool True, rest)"
  by (simp add: skip_ws_def is_ws_def)

lemma parse_value_false: "parse_value (Suc n) (''false'' @ rest) = Some (JBool False, rest)"
  by (simp add: skip_ws_def is_ws_def)

lemma stringify_head: "\<exists>c cs. JSON_stringify v = c # cs \<and> opener c"
proof (cases v)
  case (JNum i)
  obtain c cs where h: "show_int i = c # cs" "is_digit c \<or> c = CHR ''-''"
    using show_int_head by blast
  then have "opener c"
    by (auto simp: opener_def is_digit_def is_ws_def)
  then show ?thesis using JNum h by simp
qed (simp_all add: opener_def is_ws_def quote_def)

lemma stringify_length: "0 < length (JSON_stringify v)"
  using stringify_head[of v] by auto

lemma commas_head:
  assumes "xs \<noteq> []"
  shows "\<exists>c cs. commas (map JSON_stringify xs) = c # cs \<and> opener c"
proof -
  obtain x ys where xs: "xs = x # ys" using assms by (cases xs) auto
  obtain c cs where h: "JSON_stringify x = c # cs" "opener c"
    using stringify_head by blast
  show ?thesis
    using h xs by (cases ys) simp_all
qed

lemma parse_elems_commas:
  assumes ih: "\<And>x rest f. x \<in> set xs \<Longrightarrow> delim rest \<Longrightarrow> length (JSON_stringify x) \<le> f \<Longrightarrow>
                 parse_value f (JSON_stringify x @ rest) = Some (json_view x, rest)"
    and "xs \<noteq> []" and "length (commas (map JSON_stringify xs)) < n"
  shows "parse_elems n acc (commas (map JSON_stringify xs) @ CHR '']'' # rest) =
         Some (JArr (acc @ map json_view xs), rest)"
  using assms
proof (induction xs arbitrary: n acc)
  case Nil
  then show ?case by simp
next
  case (Cons x xs)
  obtain m where n: "n = Suc m"
    using Cons.prems(3) by (cases n) auto
  show ?case
  proof (cases xs)
    case Nil
    have "parse_value m (JSON_stringify x @ CHR '']'' # rest) = Some (json_view x, CHR '']'' # rest)"
      using Cons.prems(3) n Nil by (intro Cons.prems(1)) (simp_all add: delim_def)
    then show ?thesis
      using Nil n by (simp add: skip_ws_def is_ws_def)
  next
    case (Cons y ys)
    let ?tail = "commas (map JSON_stringify xs) @ CHR '']'' # rest"
    have len: "length (JSON_stringify x) + 1 + length (commas (map JSON_stringify xs)) < n"
      using Cons.prems(3) Cons by simp
    have "parse_value m (JSON_stringify x @ CHR '','' # ?tail) = Some (json_view x, CHR '','' # ?tail)"
      using len n by (intro Cons.prems(1)) (simp_all add: delim_def)
    moreover have "parse_elems m (acc @ [json_view x]) ?tail =
        Some (JArr ((acc @ [json_view x]) @ map json_view xs), rest)"
      using len n Cons stringify_length[of x]
      by (intro Cons.IH Cons.prems(1)) simp_all
    ultimately show ?thesis
      using Cons n by (simp add: skip_ws_def is_ws_def)
  qed
qed

lemma update_fresh: "k \<notin> fst ` set acc \<Longrightarrow> AList.update k v acc = acc @ [(k, v)]"
  by (induction acc) auto

lemma members_head:
  assumes "ms \<noteq> []"
  shows "\<exists>cs. commas (map (\<lambda>kv. quote (fst kv) @ CHR '':'' # JSON_stringify (snd kv)) ms) =
              CHR 0x22 # cs"
proof -
  obtain x ys where ms: "ms = x # ys" using assms by (cases ms) auto
  show ?thesis
    using ms by (cases ys) (simp_all add: quote_def)
qed

lemma parse_members_commas:
  assumes ih: "\<And>kv rest f. kv \<in> set ms \<Longrightarrow> delim rest \<Longrightarrow> length (JSON_stringify (snd kv)) \<le> f \<Longrightarrow>
                 parse_value f (JSON_stringify (snd kv) @ rest) = Some (json_view (snd kv), rest)"
    and "ms \<noteq> []"
    and "length (commas (map (\<lambda>kv. quote (fst kv) @ CHR '':'' # JSON_stringify (snd kv)) ms)) < n"
    and "distinct (map fst acc @ map fst ms)"
  shows "parse_members n acc
           (commas (map (\<lambda>kv. quote (fst kv) @ CHR '':'' # JSON_stringify (snd kv)) ms) @
            CHR ''}'' # rest) =
         Some (JObj (acc @ map (\<lambda>kv. (fst kv, json_view (snd kv))) ms), rest)"
  using assms
proof (induction ms arbitrary: n acc)
  case Nil
  then show ?case by simp
next
  case (Cons kv ms)
  obtain k v where kv: "kv = (k, v)" by (cases kv)
  obtain m where n: "n = Suc m"
    using Cons.prems(3) by (cases n) auto
  have fresh: "k \<notin> fst ` set acc"
    using Cons.prems(4) kv by auto
  have key: "parse_string_body (concat (map escape_char k) @ CHR 0x22 # t) = Some (k, t)" for t
    by (rule parse_string_body_escaped)
  show ?case
  proof (cases ms)
    case Nil
    have "parse_value m (JSON_stringify v @ CHR ''}'' # rest) = Some (json_view v, CHR ''}'' # rest)"
      using Cons.prems(1)[of kv "CHR ''}'' # rest" m] Cons.prems(3) n Nil kv
      by (simp add: delim_def)
    then show ?thesis
      using Nil n kv key
      by (simp add: quote_def skip_ws_def is_ws_def update_fresh[OF fresh])
  next
    case (Cons kv' ms')
    let ?tail = "commas (map (\<lambda>kv. quote (fst kv) @ CHR '':'' # JSON_stringify (snd kv)) ms) @
                 CHR ''}'' # rest"
    have len: "length (quote k) + 1 + length (JSON_stringify v) + 1 +
               length (commas (map (\<lambda>kv. quote (fst kv) @ CHR '':'' # JSON_stringify (snd kv)) ms)) < n"
      using Cons.prems(3) Cons kv by simp
    have val: "parse_value m (JSON_stringify v @ CHR '','' # ?tail) = Some (json_view v, CHR '','' # ?tail)"
      using Cons.prems(1)[of kv "CHR '','' # ?tail" m] len n kv
      by (simp add: delim_def)
    have dist: "distinct (map fst (acc @ [(k, json_view v)]) @ map fst ms)"
      using Cons.prems(4) kv by auto
    have rec: "parse_members m (acc @ [(k, json_view v)]) ?tail =
        Some (JObj ((acc @ [(k, json_view v)]) @ map (\<lambda>kv. (fst kv, json_view (snd kv))) ms), rest)"
      using len n Cons dist
      by (intro Cons.IH Cons.prems(1)) simp_all
    show ?thesis
      using Cons n kv key val rec
      by (simp add: quote_def skip_ws_def is_ws_def update_fresh[OF fresh])
  qed
qed

lemma parse_value_stringify:
  "keys_distinct v \<Longrightarrow> delim rest \<Longrightarrow> length (JSON_stringify v) \<le> f \<Longrightarrow>
   parse_value f (JSON_stringify v @ rest) = Some (json_view v, rest)"
proof (induction v arbitrary: rest f)
  case JUndefined
  then obtain n where "f = Suc n" by (cases f) auto
  then show ?case using parse_value_null by simp
next
  case JNull
  then obtain n where "f = Suc n" by (cases f) auto
  then show ?case using parse_value_null by simp
next
  case (JBool b)
  then obtain n where "f = Suc n"
    using stringify_length[of "JBool b"] by (cases f) auto
  then show ?case using parse_value_true parse_value_false by (cases b) simp_all
next
  case (JNum i)
  then obtain n where "f = Suc n"
    using stringify_length[of "JNum i"] by (cases f) auto
  then show ?case using parse_value_JNum[OF JNum.prems(2)] by simp
next
  case (JStr s)
  then obtain n where "f = Suc n"
    using stringify_length[of "JStr s"] by (cases f) auto
  then show ?case using parse_value_JStr by simp
next
  case (JArr xs)
  obtain n where f: "f = Suc n" using JArr.prems(3) by (cases f) auto
  have ih: "parse_value f' (JSON_stringify x @ rest') = Some (json_view x, rest')"
    if "x \<in> set xs" "delim rest'" "length (JSON_stringify x) \<le> f'" for x rest' f'
    using that JArr.prems(1) by (intro JArr.IH) (simp_all add: list_all_iff)
  show ?case
  proof (cases "xs = []")
    case True
    then show ?thesis using f by (simp add: skip_ws_def is_ws_def)
  next
    case False
    obtain c cs where h: "commas (map JSON_stringify xs) = c # cs" "opener c"
      using commas_head[OF False] by blast
    have "parse_elems n [] (commas (map JSON_stringify xs) @ CHR '']'' # rest) =
          Some (JArr ([] @ map json_view xs), rest)"
      using JArr.prems(3) f by (intro parse_elems_commas ih False) simp_all
    then show ?thesis
      using f h by (simp add: skip_ws_def is_ws_def opener_def)
  qed
next
  case (JObj kvs)
  obtain n where f: "f = Suc n" using JObj.prems(3) by (cases f) auto
  let ?ms = "filter (\<lambda>kv. snd kv \<noteq> JUndefined) kvs"
  let ?mem = "\<lambda>kv. quote (fst kv) @ CHR '':'' # JSON_stringify (snd kv)"
  have ih: "parse_value f' (JSON_stringify (snd kv) @ rest') = Some (json_view (snd kv), rest')"
    if "kv \<in> set ?ms" "delim rest'" "length (JSON_stringify (snd kv)) \<le> f'" for kv rest' f'
  proof -
    have "kv \<in> set kvs" using that(1) by simp
    moreover have "snd kv \<in> Basic_BNFs.snds kv" by (cases kv) simp
    moreover have "keys_distinct (snd kv)"
      using JObj.prems(1) \<open>kv \<in> set kvs\<close> by (simp add: list_all_iff)
    ultimately show ?thesis
      using that(2,3) by (intro JObj.IH)
  qed
  have dist: "distinct (map fst [] @ map fst ?ms)"
    using JObj.prems(1) by (simp add: distinct_map_filter)
  show ?case
  proof (cases "?ms = []")
    case True
    then show ?thesis using f by (simp add: skip_ws_def is_ws_def)
  next
    case False
    obtain cs where h: "commas (map ?mem ?ms) = CHR 0x22 # cs"
      using members_head[OF False] by blast
    have "parse_members n [] (commas (map ?mem ?ms) @ CHR ''}'' # rest) =
          Some (JObj ([] @ map (\<lambda>kv. (fst kv, json_view (snd kv))) ?ms), rest)"
      using JObj.prems(3) f by (intro parse_members_commas ih False dist) simp_all
    then show ?thesis
      using f h by (simp add: skip_ws_def is_ws_def)
  qed
qed

lemma JSON_parse_stringify:
  assumes "keys_distinct v"
  shows "JSON_parse (JSON_stringify v) = Some (json_view v)"
proof -
  have "parse_value (length (JSON_stringify v)) (JSON_stringify v @ []) = Some (json_view v, [])"
    using assms by (intro parse_value_stringify) (simp_all add: delim_def)
  then show ?thesis
    by (simp add: JSON_parse_def skip_ws_def)
qed

section \<open>Properties of the fan-out\<close>

lemma broadcast_ws_sent:
  "ws_sent (broadcast message s) =
     ws_sent s @ map (\<lambda>client. (client, JSON_stringify (JObj (stamp (sessionId s) message))))
                     (filter (readyOpen s) (clients s))"
  by (simp add: broadcast_def Let_def)

lemma getp_stamp_taskId: "getp (JObj (stamp sid message)) ''taskId'' = JStr sid"
  by (simp add: stamp_def update_conv')

lemma getp_stamp_other:
  "k \<noteq> ''taskId'' \<Longrightarrow> getp (JObj (stamp sid message)) k = getp (JObj message) k"
  by (simp add: stamp_def update_conv')

lemma broadcast_sse_written:
  "sse_written (broadcast message s) =
     sse_written s @
     map (\<lambda>res. (res, ''data: '' @
                      JSON_stringify (jsonRpcResponse (stamp (sessionId s) message)) @
                      [CHR 0x0A, CHR 0x0A]))
         (sseClients s)"
  by (simp add: broadcast_def Let_def)

lemma jsonRpcResponse_stamp:
  "jsonRpcResponse (stamp sid message) =
     JObj [(''jsonrpc'', JStr ''2.0''), (''id'', JStr sid), (''result'', JObj (stamp sid message))]"
  unfolding jsonRpcResponse_def by (simp only: getp_stamp_taskId)

lemma broadcast_keeps [simp]:
  "sessionId (broadcast message s) = sessionId s"
  "clients (broadcast message s) = clients s"
  "readyOpen (broadcast message s) = readyOpen s"
  "sseClients (broadcast message s) = sseClients s"
  "published (broadcast message s) = published s"
  "injected (broadcast message s) = injected s"
  by (simp_all add: broadcast_def Let_def)

lemma onToolCallsUpdate_ws_sent:
  "ws_sent (onToolCallsUpdate toolCalls s) =
     ws_sent s @
     concat (map (\<lambda>tc. map (\<lambda>client. (client,
                    JSON_stringify (JObj (stamp (sessionId s) (toolCallUpdate tc)))))
                  (filter (readyOpen s) (clients s))) toolCalls)"
proof -
  have "ws_sent (fold (\<lambda>tc. broadcast (toolCallUpdate tc)) toolCalls s') =
     ws_sent s' @
     concat (map (\<lambda>tc. map (\<lambda>client. (client,
                    JSON_stringify (JObj (stamp (sessionId s) (toolCallUpdate tc)))))
                  (filter (readyOpen s) (clients s))) toolCalls)"
    if "sessionId s' = sessionId s" "clients s' = clients s" "readyOpen s' = readyOpen s"
    for s'
    using that
  proof (induction toolCalls arbitrary: s')
    case Nil
    show ?case by simp
  next
    case (Cons tc toolCalls)
    have "ws_sent (fold (\<lambda>tc. broadcast (toolCallUpdate tc)) toolCalls
                     (broadcast (toolCallUpdate tc) s')) =
          ws_sent (broadcast (toolCallUpdate tc) s') @
          concat (map (\<lambda>tc. map (\<lambda>client. (client,
                    JSON_stringify (JObj (stamp (sessionId s) (toolCallUpdate tc)))))
                  (filter (readyOpen s) (clients s))) toolCalls)"
      by (rule Cons.IH) (simp_all add: Cons.prems)
    then show ?case
      by (simp add: broadcast_ws_sent Cons.prems)
  qed
  then show ?thesis
    by (simp add: onToolCallsUpdate_def)
qed

lemma keys_distinct_update:
  "list_all (\<lambda>kv. keys_distinct (snd kv)) al \<Longrightarrow>
   list_all (\<lambda>kv. keys_distinct (snd kv)) (AList.update k (JStr sid) al)"
  by (induction al) auto

lemma keys_distinct_stamp:
  assumes "keys_distinct (JObj message)"
  shows "keys_distinct (JObj (stamp sid message))"
proof -
  have "distinct (map fst (stamp sid message))"
    using assms by (simp add: stamp_def distinct_update)
  moreover have "list_all (\<lambda>kv. keys_distinct (snd kv)) (stamp sid message)"
    unfolding stamp_def using assms by (intro keys_distinct_update) simp
  ultimately show ?thesis by simp
qed

lemma getp_json_view:
  assumes "distinct (map fst kvs)"
  shows "getp (json_view (JObj kvs)) k =
         (if getp (JObj kvs) k = JUndefined then JUndefined else json_view (getp (JObj kvs) k))"
  using assms
proof (induction kvs)
  case Nil
  show ?case by simp
next
  case (Cons kv kvs)
  have absent: "map_of kvs (fst kv) = None"
    using Cons.prems by (simp add: map_of_eq_None_iff)
  have gone: "map_of (map (\<lambda>kv. (fst kv, json_view (snd kv)))
                      (filter (\<lambda>kv. snd kv \<noteq> JUndefined) kvs)) (fst kv) = None"
  proof -
    have "fst kv \<notin> fst ` set kvs"
      using Cons.prems by simp
    then have "fst kv \<notin> fst ` set (map (\<lambda>kv. (fst kv, json_view (snd kv)))
                                       (filter (\<lambda>kv. snd kv \<noteq> JUndefined) kvs))"
      by force
    then show ?thesis
      by (simp only: map_of_eq_None_iff) simp
  qed
  show ?case
    using Cons absent gone by (cases kv) auto
qed

lemma twoPeers_state:
  "sessionId twoPeers = ''S''"
  "filter (readyOpen twoPeers) (clients twoPeers) = [1]"
  "ws_sent twoPeers = []"
  by (simp_all add: twoPeers_def handleStreamRequest_def routeStreamBody_def onConnection_def
      a2a_init_def Set_add_def Let_def)

lemma stringify_object_last: "last (JSON_stringify (JObj kvs)) = CHR ''}''"
  by simp

text \<open>
  C3 (as stated, refuted). The content event \<open>hi\<close> broadcast to one open socket in the
  session \<open>S\<close>: the frame is the JSON text and nothing more. Its last character is the
  closing brace, not the null character, and without that last character it is not
  JSON.
\<close>

theorem socket_frame_counterexample:
  \<open>ws_sent (broadcast hiEvent twoPeers) =
     [(1, ''{"kind":"TEXT_CONTENT","content":{"text":"hi"},"taskId":"S"}'')] \<and>
   JSON_parse (butlast ''{"kind":"TEXT_CONTENT","content":{"text":"hi"},"taskId":"S"}'') = None\<close>
proof -
  have frame: "ws_sent (broadcast hiEvent twoPeers) =
      [(1, JSON_stringify (JObj (stamp ''S'' hiEvent)))]"
    by (simp add: broadcast_ws_sent twoPeers_state)
  have lit: \<open>JSON_stringify (JObj (stamp ''S'' hiEvent)) =
      ''{"kind":"TEXT_CONTENT","content":{"text":"hi"},"taskId":"S"}''\<close>
    by (simp add: stamp_def hiEvent_def quote_def escape_char_def)
  have cut: \<open>JSON_parse (butlast ''{"kind":"TEXT_CONTENT","content":{"text":"hi"},"taskId":"S"}'') = None\<close>
    by (simp add: JSON_parse_def skip_ws_def is_ws_def unescape_def cons_to_def parse_number_def
        parse_digits_def is_digit_def)
  show ?thesis
    using frame lit cut by simp
qed

text \<open>
  C3 (amended). Every frame a broadcast sends to an open socket is exactly the JSON
  text of the event stamped with the session, with no terminator: it ends with the
  closing brace of the object, and the frame as it is, nothing stripped, parses back to
  the stamped event (as JSON keeps it: without the properties that are \<open>undefined\<close>).
\<close>

theorem socket_frame_roundtrip:
  assumes "keys_distinct (JObj message)"
  shows "ws_sent (broadcast message s) =
           ws_sent s @ map (\<lambda>client. (client, JSON_stringify (JObj (stamp (sessionId s) message))))
                           (filter (readyOpen s) (clients s)) \<and>
         last (JSON_stringify (JObj (stamp (sessionId s) message))) = CHR ''}'' \<and>
         JSON_parse (JSON_stringify (JObj (stamp (sessionId s) message))) =
           Some (json_view (JObj (stamp (sessionId s) message)))"
  using keys_distinct_stamp[OF assms, of "sessionId s"]
  by (simp only: broadcast_ws_sent stringify_object_last JSON_parse_stringify simp_thms)

theorem socket_frame_roundtrip_witness:
  "keys_distinct (JObj hiEvent) \<and>
   ws_sent (broadcast hiEvent twoPeers) = [(1, JSON_stringify (JObj (stamp ''S'' hiEvent)))] \<and>
   JSON_parse (JSON_stringify (JObj (stamp ''S'' hiEvent))) =
     Some (JObj [(''kind'', JStr ''TEXT_CONTENT''), (''content'', JObj [(''text'', JStr ''hi'')]),
                 (''taskId'', JStr ''S'')])"
proof -
  have kd: "keys_distinct (JObj hiEvent)"
    by (simp add: hiEvent_def)
  have view: "json_view (JObj (stamp ''S'' hiEvent)) =
      JObj [(''kind'', JStr ''TEXT_CONTENT''), (''content'', JObj [(''text'', JStr ''hi'')]),
            (''taskId'', JStr ''S'')]"
    by (simp add: stamp_def hiEvent_def)
  have "ws_sent (broadcast hiEvent twoPeers) =
          ws_sent twoPeers @
          map (\<lambda>client. (client, JSON_stringify (JObj (stamp (sessionId twoPeers) hiEvent))))
              (filter (readyOpen twoPeers) (clients twoPeers))"
    and "JSON_parse (JSON_stringify (JObj (stamp (sessionId twoPeers) hiEvent))) =
          Some (json_view (JObj (stamp (sessionId twoPeers) hiEvent)))"
    using socket_frame_roundtrip[OF kd, of twoPeers] by blast+
  then have "ws_sent (broadcast hiEvent twoPeers) =
          [(1, JSON_stringify (JObj (stamp ''S'' hiEvent)))]"
    and "JSON_parse (JSON_stringify (JObj (stamp ''S'' hiEvent))) =
          Some (JObj [(''kind'', JStr ''TEXT_CONTENT''), (''content'', JObj [(''text'', JStr ''hi'')]),
                      (''taskId'', JStr ''S'')])"
    by (simp_all only: twoPeers_state view append_Nil list.map)
  then show ?thesis
    using kd by blast
qed

text \<open>
  C4. Every frame a broadcast delivers carries the session identifier: the text sent to
  a socket parses to an object whose \<open>taskId\<close> is the session identifier, the chunk
  written to an SSE response is \<open>data: \<close>, the text of an envelope and two line feeds,
  and the envelope parses to an object whose \<open>id\<close> and whose \<open>result.taskId\<close> are the
  session identifier; \<open>POST /tasks\<close> answers 201 with that identifier as \<open>id\<close>.
\<close>

theorem session_identity:
  assumes "keys_distinct (JObj message)"
  shows "ws_sent (broadcast message s) =
           ws_sent s @
           map (\<lambda>client. (client, JSON_stringify (JObj (stamp (sessionId s) message))))
               (filter (readyOpen s) (clients s)) \<and>
         sse_written (broadcast message s) =
           sse_written s @
           map (\<lambda>res. (res, ''data: '' @
                            JSON_stringify (jsonRpcResponse (stamp (sessionId s) message)) @
                            [CHR 0x0A, CHR 0x0A]))
               (sseClients s) \<and>
         (\<exists>payload. JSON_parse (JSON_stringify (JObj (stamp (sessionId s) message))) = Some payload \<and>
                    getp payload ''taskId'' = JStr (sessionId s)) \<and>
         (\<exists>rpc. JSON_parse (JSON_stringify (jsonRpcResponse (stamp (sessionId s) message))) = Some rpc \<and>
                getp rpc ''id'' = JStr (sessionId s) \<and>
                getp (getp rpc ''result'') ''taskId'' = JStr (sessionId s)) \<and>
         postTasks s = JsonReply 201 (JObj [(''id'', JStr (sessionId s))])"
proof -
  let ?p = "JObj (stamp (sessionId s) message)"
  let ?e = "jsonRpcResponse (stamp (sessionId s) message)"
  have e: "?e = JObj [(''jsonrpc'', JStr ''2.0''), (''id'', JStr (sessionId s)), (''result'', ?p)]"
    by (rule jsonRpcResponse_stamp)
  have kp: "keys_distinct ?p"
    using assms by (rule keys_distinct_stamp)
  then have ke: "keys_distinct ?e"
    unfolding e by simp
  have dp: "distinct (map fst (stamp (sessionId s) message))"
    using kp by simp
  have tid: "getp (json_view ?p) ''taskId'' = JStr (sessionId s)"
    by (subst getp_json_view[OF dp]) (simp only: getp_stamp_taskId, simp)
  have rid: "getp (json_view ?e) ''id'' = JStr (sessionId s)"
    unfolding e by simp
  have res: "getp (json_view ?e) ''result'' = json_view ?p"
    unfolding e by simp
  have sock: "\<exists>payload. JSON_parse (JSON_stringify ?p) = Some payload \<and>
                        getp payload ''taskId'' = JStr (sessionId s)"
    using JSON_parse_stringify[OF kp] tid by blast
  have rtid: "getp (getp (json_view ?e) ''result'') ''taskId'' = JStr (sessionId s)"
    by (simp only: res tid)
  have sse: "\<exists>rpc. JSON_parse (JSON_stringify ?e) = Some rpc \<and>
                    getp rpc ''id'' = JStr (sessionId s) \<and>
                    getp (getp rpc ''result'') ''taskId'' = JStr (sessionId s)"
    using JSON_parse_stringify[OF ke] rid rtid by blast
  show ?thesis
    using sock sse
    by (simp only: broadcast_ws_sent broadcast_sse_written postTasks_def simp_thms)
qed

theorem session_identity_witness:
  "keys_distinct (JObj hiEvent) \<and>
   ws_sent (broadcast hiEvent twoPeers) = [(1, JSON_stringify (JObj (stamp ''S'' hiEvent)))] \<and>
   sse_written (broadcast hiEvent twoPeers) =
     [(5, ''data: '' @ JSON_stringify (jsonRpcResponse (stamp ''S'' hiEvent)) @ [CHR 0x0A, CHR 0x0A])] \<and>
   (\<exists>payload. JSON_parse (JSON_stringify (JObj (stamp ''S'' hiEvent))) = Some payload \<and>
              getp payload ''taskId'' = JStr ''S'') \<and>
   postTasks twoPeers = JsonReply 201 (JObj [(''id'', JStr ''S'')])"
proof -
  have kd: "keys_distinct (JObj hiEvent)"
    by (simp add: hiEvent_def)
  have sse: "sseClients twoPeers = [5]" "sse_written twoPeers = []"
    by (simp_all add: twoPeers_def handleStreamRequest_def routeStreamBody_def onConnection_def
        a2a_init_def Set_add_def Let_def)
  show ?thesis
    using session_identity[OF kd, of twoPeers] kd
    by (simp only: twoPeers_state sse append_Nil list.map simp_thms)
qed

text \<open>
  C6. The subscriber of \<open>TOOL_CALLS_UPDATE\<close> sends to every open socket, for every tool
  call of the batch in order, the text of the stamped update, and the \<open>status\<close> of that
  update is the value of the specification's table at the host status:
  \<open>AwaitingApproval\<close> gives \<open>PENDING\<close>, \<open>Executing\<close> \<open>EXECUTING\<close>, \<open>Success\<close> \<open>SUCCEEDED\<close>,
  \<open>Error\<close> \<open>FAILED\<close>, \<open>Cancelled\<close> \<open>CANCELLED\<close>, any other value \<open>PENDING\<close>.
\<close>

theorem tool_call_status_mapping:
  "ws_sent (onToolCallsUpdate toolCalls s) =
     ws_sent s @
     concat (map (\<lambda>tc. map (\<lambda>client. (client,
                    JSON_stringify (JObj (stamp (sessionId s) (toolCallUpdate tc)))))
                  (filter (readyOpen s) (clients s))) toolCalls) \<and>
   getp (JObj (stamp (sessionId s) (toolCallUpdate tc))) ''status'' = JStr (spec_status (status tc)) \<and>
   mapToolCallStatus AwaitingApproval = ''PENDING'' \<and>
   mapToolCallStatus Executing = ''EXECUTING'' \<and>
   mapToolCallStatus Success = ''SUCCEEDED'' \<and>
   mapToolCallStatus Error = ''FAILED'' \<and>
   mapToolCallStatus Cancelled = ''CANCELLED'' \<and>
   mapToolCallStatus (OtherStatus x) = ''PENDING''"
proof -
  have "mapToolCallStatus st = spec_status st" for st
    by (cases st) (simp_all add: spec_status_def spec_status_table_def)
  then have "getp (JObj (stamp (sessionId s) (toolCallUpdate tc))) ''status'' =
             JStr (spec_status (status tc))"
    by (subst getp_stamp_other) (simp_all add: toolCallUpdate_def)
  then show ?thesis
    by (simp add: onToolCallsUpdate_ws_sent)
qed

text \<open>
  C7 (as stated, refuted). A tool call that succeeded with the empty string as display
  result: the display result is there, yet \<open>result.output.text\<close> is \<open>Success\<close>.
\<close>

theorem tool_call_result_counterexample:
  "status emptyDisplayCall = Success \<and>
   resultDisplay (response emptyDisplayCall) = JStr [] \<and>
   getp (getp (getp (JObj (stamp ''S'' (toolCallUpdate emptyDisplayCall))) ''result'') ''output'')
     ''text'' = JStr ''Success''"
  by (subst getp_stamp_other)
     (simp_all add: emptyDisplayCall_def toolCallUpdate_def mapToolCallResult_def js_or_def)

text \<open>
  C7 (amended). In the update broadcast for a tool call: when the status is \<open>Success\<close>,
  \<open>result.output.text\<close> is the display result if that is truthy (there, and not the empty
  string) and \<open>Success\<close> otherwise; when the status is \<open>Error\<close>, \<open>result.error.message\<close> is
  the message of the error if that is truthy and \<open>Unknown error\<close> otherwise; for every
  other status \<open>result\<close> is \<open>undefined\<close>, and the JSON a peer reads has no \<open>result\<close>.
\<close>

theorem tool_call_result_mapping:
  "getp (JObj (stamp sid (toolCallUpdate tc))) ''result'' =
     (if status tc = Success then
        JObj [(''output'', JObj [(''text'',
           if truthy (resultDisplay (response tc)) then resultDisplay (response tc)
           else JStr ''Success'')])]
      else if status tc = Error then
        JObj [(''error'', JObj [(''message'',
           if truthy (getp (error (response tc)) ''message'')
           then getp (error (response tc)) ''message''
           else JStr ''Unknown error'')])]
      else JUndefined) \<and>
   getp (json_view (JObj (stamp sid (toolCallUpdate tc)))) ''result'' =
     (if status tc = Success then
        JObj [(''output'', JObj [(''text'',
           if truthy (resultDisplay (response tc)) then json_view (resultDisplay (response tc))
           else JStr ''Success'')])]
      else if status tc = Error then
        JObj [(''error'', JObj [(''message'',
           if truthy (getp (error (response tc)) ''message'')
           then json_view (getp (error (response tc)) ''message'')
           else JStr ''Unknown error'')])]
      else JUndefined)"
proof -
  let ?u = "toolCallUpdate tc"
  have "getp (JObj (stamp sid ?u)) ''result'' = getp (JObj ?u) ''result''"
    by (rule getp_stamp_other) simp
  also have "\<dots> = mapToolCallResult tc"
    by (simp add: toolCallUpdate_def)
  finally have raw: "getp (JObj (stamp sid ?u)) ''result'' = mapToolCallResult tc" .
  have "distinct (map fst ?u)"
    by (simp add: toolCallUpdate_def)
  then have "distinct (map fst (stamp sid ?u))"
    by (simp add: stamp_def distinct_update)
  then have seen: "getp (json_view (JObj (stamp sid ?u))) ''result'' =
      (if mapToolCallResult tc = JUndefined then JUndefined
       else json_view (mapToolCallResult tc))"
    by (simp only: getp_json_view raw)
  have defined: "truthy v \<Longrightarrow> v \<noteq> JUndefined" for v
    by auto
  consider (succeeded) "status tc = Success" | (failed) "status tc = Error"
    | (other) "status tc \<noteq> Success" "status tc \<noteq> Error"
    by blast
  then show ?thesis
  proof cases
    case succeeded
    then have "mapToolCallResult tc =
        JObj [(''output'', JObj [(''text'',
           if truthy (resultDisplay (response tc)) then resultDisplay (response tc)
           else JStr ''Success'')])]"
      by (simp add: mapToolCallResult_def js_or_def)
    then show ?thesis
      using succeeded defined[of "resultDisplay (response tc)"]
      unfolding raw seen by simp
  next
    case failed
    then have "mapToolCallResult tc =
        JObj [(''error'', JObj [(''message'',
           if truthy (getp (error (response tc)) ''message'')
           then getp (error (response tc)) ''message''
           else JStr ''Unknown error'')])]"
      by (simp add: mapToolCallResult_def js_or_def)
    then show ?thesis
      using failed defined[of "getp (error (response tc)) ''message''"]
      unfolding raw seen by simp
  next
    case other
    then have "mapToolCallResult tc = JUndefined"
      by (simp add: mapToolCallResult_def)
    then show ?thesis
      using other unfolding raw seen by simp
  qed
qed

section \<open>Properties of the remote-control server\<close>









text \<open>
  C10 (the code at the failing input). The body \<open>null\<close> is valid JSON without a
  \<open>message\<close>; the answer is 400 \<open>Invalid JSON\<close>, whatever the bridge.
\<close>

theorem post_message_null_body:
  "JSON_parse ''null'' = Some JNull \<and>
   remoteHandler JSON_parse
     \<lparr>req_method = ''POST'', req_path = ''/message'', req_limit = None, req_body = ''null''\<rparr> b =
     (json_error 400 ''Invalid JSON'', b)"
proof -
  have "JSON_parse ''null'' = Some JNull"
    by (simp add: JSON_parse_def skip_ws_def is_ws_def)
  then show ?thesis
    by (simp add: remoteHandler_def postMessage_def)
qed

lemma postMessage_cases:
  "jsonParse body = None \<Longrightarrow>
     postMessage jsonParse body b = (json_error 400 ''Invalid JSON'', b)"
  "jsonParse body = Some v \<Longrightarrow> v \<noteq> JNull \<Longrightarrow> v \<noteq> JUndefined \<Longrightarrow>
     \<not> truthy (getp v ''message'') \<Longrightarrow>
     postMessage jsonParse body b = (json_error 400 ''Message is required'', b)"
  "jsonParse body = Some v \<Longrightarrow> truthy (getp v ''message'') \<Longrightarrow> \<not> isRegistered b \<Longrightarrow>
     postMessage jsonParse body b = (json_error 503 ''TUI bridge is not yet registered'', b)"
  "jsonParse body = Some v \<Longrightarrow> truthy (getp v ''message'') \<Longrightarrow> isRegistered b \<Longrightarrow>
     onMessage b = Some f \<Longrightarrow>
     postMessage jsonParse body b =
       ((200, JSON_stringify (JObj [(''status'', JStr ''Message submitted'')])),
        b\<lparr>tui := f (getp v ''message'') (tui b)\<rparr>)"
  by (auto simp: postMessage_def submitMessage_def Let_def)

end
